theory Spec2Isabelle
  imports Complex_Main "HOL-Library.Sublist" "HOL-Library.Multiset"
begin

text \<open>
  A model of the task tracker page: the task type, the pipeline that derives the
  displayed page from the tasks and the view state (sort, filter, paginate), the
  handlers of the user's actions, and the two effects that load and save the tasks in
  the browser's local storage. The component is modelled from its later revision,
  src/unnamed/part_002; the pipeline of the earlier revision, src/src/app/page.tsx, is
  modelled beside it where the two differ.
\<close>

section \<open>Data model\<close>

text \<open>
  The task type of the repository (\<^verbatim>\<open>TaskStatus\<close> and \<^verbatim>\<open>Task\<close>, the type
  declarations of src/unnamed/part_003). A \<^verbatim>\<open>Date\<close> is its time value, the
  milliseconds since the epoch; only valid dates are modelled (the form's schema
  \<^verbatim>\<open>z.date\<close> admits no other). The optional \<^verbatim>\<open>link\<close> is \<open>None\<close> when the
  property is \<^verbatim>\<open>undefined\<close>. The field \<^verbatim>\<open>id\<close> is named \<open>task_id\<close>.
\<close>

datatype TaskStatus = Pending | Completed

record Task =
  task_id :: string
  date :: int
  description :: string
  link :: "string option"
  status :: TaskStatus

text \<open>The string a status is at run time (the type is a union of two string literals).\<close>

fun status_text :: "TaskStatus \<Rightarrow> string" where
  "status_text Pending = ''Pending''"
| "status_text Completed = ''Completed''"

text \<open>
  \<^verbatim>\<open>sortConfig: { key: keyof Task | null; direction: 'ascending' | 'descending' }\<close>.
\<close>

datatype TaskKey = K_id | K_date | K_description | K_link | K_status

datatype Direction = ascending | descending

record SortConfig =
  key :: "TaskKey option"
  direction :: Direction

text \<open>
  What the browser and the libraries supply: \<^verbatim>\<open>String.prototype.localeCompare\<close>,
  \<^verbatim>\<open>String.prototype.toLowerCase\<close>, \<^verbatim>\<open>format\<close> of date-fns (it depends on
  the time zone and the locale), \<^verbatim>\<open>Date.prototype.toJSON\<close> (the ISO string
  \<^verbatim>\<open>JSON.stringify\<close> writes for a date) and \<^verbatim>\<open>new Date(string)\<close> (\<open>None\<close>
  is the invalid date). None of them is code of the repository: they are parameters
  of the model.
\<close>

record Platform =
  localeCompare :: "string \<Rightarrow> string \<Rightarrow> int"
  toLowerCase :: "string \<Rightarrow> string"
  format :: "int \<Rightarrow> string \<Rightarrow> string"
  toISOString :: "int \<Rightarrow> string"
  Date_parse :: "string \<Rightarrow> int option"

section \<open>The view pipeline (src/unnamed/part_002, the later revision of the page)\<close>

definition TASKS_PER_PAGE :: int where
  "TASKS_PER_PAGE = 30"

subsection \<open>Sorting\<close>

text \<open>The value \<^verbatim>\<open>a[sortConfig.key]\<close>: a string or a date, or \<open>None\<close> for \<^verbatim>\<open>undefined\<close>.\<close>

datatype FieldValue = Str string | DateValue int

fun field :: "TaskKey \<Rightarrow> Task \<Rightarrow> FieldValue option" where
  "field K_id t = Some (Str (task_id t))"
| "field K_date t = Some (DateValue (date t))"
| "field K_description t = Some (Str (description t))"
| "field K_link t = map_option Str (link t)"
| "field K_status t = Some (Str (status_text (status t)))"

text \<open>
  The comparison function handed to \<^verbatim>\<open>sort\<close>. The difference of two time values is
  taken in the integers: the floating-point difference of the source has the same sign,
  and only the sign is used.
\<close>

definition compareFn :: "Platform \<Rightarrow> TaskKey \<Rightarrow> Direction \<Rightarrow> Task \<Rightarrow> Task \<Rightarrow> int" where
  "compareFn P k dir a b =
     (case (field k a, field k b) of
        (None, None) \<Rightarrow> 0
      | (None, Some bValue) \<Rightarrow> (if dir = ascending then 1 else - 1)
      | (Some aValue, None) \<Rightarrow> (if dir = ascending then - 1 else 1)
      | (Some aValue, Some bValue) \<Rightarrow>
          (let comparison =
             (case (aValue, bValue) of
                (Str x, Str y) \<Rightarrow> localeCompare P x y
              | (DateValue x, DateValue y) \<Rightarrow> x - y
              | _ \<Rightarrow> 0)
           in if dir = ascending then comparison else - comparison))"

text \<open>
  \<^verbatim>\<open>Array.prototype.sort(comparefn)\<close> is a stable sort: the model is the stable
  insertion sort, which is the order every stable sort produces when the comparison
  function is a consistent one.
\<close>

fun insort_cmp :: "('a \<Rightarrow> 'a \<Rightarrow> int) \<Rightarrow> 'a \<Rightarrow> 'a list \<Rightarrow> 'a list" where
  "insort_cmp cmp x [] = [x]"
| "insort_cmp cmp x (y # ys) =
     (if cmp x y \<le> 0 then x # y # ys else y # insort_cmp cmp x ys)"

definition array_sort :: "('a \<Rightarrow> 'a \<Rightarrow> int) \<Rightarrow> 'a list \<Rightarrow> 'a list" where
  "array_sort cmp xs = foldr (insort_cmp cmp) xs []"

definition sortStage :: "Platform \<Rightarrow> SortConfig \<Rightarrow> Task list \<Rightarrow> Task list" where
  "sortStage P sortConfig tempTasks =
     (case key sortConfig of
        Some k \<Rightarrow> array_sort (compareFn P k (direction sortConfig)) tempTasks
      | None \<Rightarrow> tempTasks)"

subsection \<open>Filtering\<close>

text \<open>\<^verbatim>\<open>s.includes(t)\<close>: the string \<open>t\<close> occurs in \<open>s\<close> as a contiguous piece.\<close>

definition str_includes :: "string \<Rightarrow> string \<Rightarrow> bool" where
  "str_includes s t = sublist t s"

definition matchesSearch :: "Platform \<Rightarrow> string \<Rightarrow> Task \<Rightarrow> bool" where
  "matchesSearch P lowerCaseSearchTerm task \<longleftrightarrow>
     str_includes (toLowerCase P (description task)) lowerCaseSearchTerm \<or>
     str_includes (format P (date task) ''yyyy-MM-dd'') lowerCaseSearchTerm \<or>
     str_includes (toLowerCase P (format P (date task) ''PPP'')) lowerCaseSearchTerm \<or>
     str_includes (toLowerCase P (status_text (status task))) lowerCaseSearchTerm"

definition filterStage :: "Platform \<Rightarrow> string \<Rightarrow> Task list \<Rightarrow> Task list" where
  "filterStage P searchTerm tempTasks =
     (if searchTerm \<noteq> []
      then filter (matchesSearch P (toLowerCase P searchTerm)) tempTasks
      else tempTasks)"

text \<open>The memoised value \<^verbatim>\<open>filteredTasks\<close>: a copy of the tasks, sorted, then filtered.\<close>

definition filteredTasks :: "Platform \<Rightarrow> Task list \<Rightarrow> string \<Rightarrow> SortConfig \<Rightarrow> Task list" where
  "filteredTasks P tasks searchTerm sortConfig =
     filterStage P searchTerm (sortStage P sortConfig tasks)"

subsection \<open>Pagination\<close>

text \<open>\<^verbatim>\<open>Math.ceil(filteredTasks.length / TASKS_PER_PAGE)\<close>.\<close>

definition totalPages :: "Task list \<Rightarrow> int" where
  "totalPages filtered = \<lceil>real (length filtered) / real_of_int TASKS_PER_PAGE\<rceil>"

text \<open>
  \<^verbatim>\<open>Math.max(1, Math.min(currentPage, totalPages || 1))\<close>: the number \<open>0\<close> is falsy,
  so \<^verbatim>\<open>totalPages || 1\<close> is \<open>1\<close> when there is no page.
\<close>

definition validCurrentPage :: "int \<Rightarrow> int \<Rightarrow> int" where
  "validCurrentPage currentPage pages =
     max 1 (min currentPage (if pages \<noteq> 0 then pages else 1))"

text \<open>
  \<^verbatim>\<open>Array.prototype.slice(start, end)\<close> on integers: a negative index counts from
  the end, an index beyond the end is cut to the length, and an empty range gives the
  empty array.
\<close>

definition slice :: "'a list \<Rightarrow> int \<Rightarrow> int \<Rightarrow> 'a list" where
  "slice xs start_idx end_idx =
     (let len = int (length xs);
          k = (if start_idx < 0 then max (len + start_idx) 0 else min start_idx len);
          final = (if end_idx < 0 then max (len + end_idx) 0 else min end_idx len)
      in take (nat (final - k)) (drop (nat k) xs))"

definition paginatedTasks :: "Task list \<Rightarrow> int \<Rightarrow> Task list" where
  "paginatedTasks filtered currentPage =
     (let valid = validCurrentPage currentPage (totalPages filtered);
          startIndex = (valid - 1) * TASKS_PER_PAGE;
          endIndex = startIndex + TASKS_PER_PAGE
      in slice filtered startIndex endIndex)"

text \<open>
  The whole derivation, from the task collection and the view state to the page that is
  rendered.
\<close>

definition displayedPage ::
  "Platform \<Rightarrow> Task list \<Rightarrow> string \<Rightarrow> SortConfig \<Rightarrow> int \<Rightarrow> Task list" where
  "displayedPage P tasks searchTerm sortConfig currentPage =
     paginatedTasks (filteredTasks P tasks searchTerm sortConfig) currentPage"

subsection \<open>The arrays the derivation reads and writes\<close>

text \<open>
  \<^verbatim>\<open>sort\<close> sorts an array in place, while the spread \<^verbatim>\<open>[...tasks]\<close>,
  \<^verbatim>\<open>filter\<close> and \<^verbatim>\<open>slice\<close> build a new array. To tell the two apart the arrays
  live in a store: an array reference is an index into the store, a new array is put
  at its end. The derivation never writes to a task object, so the store holds the
  tasks themselves.
\<close>

type_synonym array_store = "Task list list"

definition new_array :: "array_store \<Rightarrow> Task list \<Rightarrow> nat \<times> array_store" where
  "new_array h xs = (length h, h @ [xs])"

definition sort_in_place :: "array_store \<Rightarrow> nat \<Rightarrow> (Task \<Rightarrow> Task \<Rightarrow> int) \<Rightarrow> array_store" where
  "sort_in_place h r cmp = h[r := array_sort cmp (h ! r)]"

text \<open>
  \<^verbatim>\<open>let tempTasks = [...tasks]; if (sortConfig.key) tempTasks.sort(...);
  if (searchTerm) tempTasks = tempTasks.filter(...); return tempTasks\<close>.
  The result is the reference that is returned, with the store it leaves.
\<close>

definition filteredTasks_mem ::
  "Platform \<Rightarrow> array_store \<Rightarrow> nat \<Rightarrow> string \<Rightarrow> SortConfig \<Rightarrow> nat \<times> array_store" where
  "filteredTasks_mem P h tasks searchTerm sortConfig =
     (let (tempTasks, h1) = new_array h (h ! tasks);
          h2 = (case key sortConfig of
                  Some k \<Rightarrow> sort_in_place h1 tempTasks (compareFn P k (direction sortConfig))
                | None \<Rightarrow> h1)
      in if searchTerm \<noteq> []
         then new_array h2 (filter (matchesSearch P (toLowerCase P searchTerm)) (h2 ! tempTasks))
         else (tempTasks, h2))"

definition paginatedTasks_mem :: "array_store \<Rightarrow> nat \<Rightarrow> int \<Rightarrow> nat \<times> array_store" where
  "paginatedTasks_mem h filtered currentPage =
     new_array h (paginatedTasks (h ! filtered) currentPage)"

definition displayedPage_mem ::
  "Platform \<Rightarrow> array_store \<Rightarrow> nat \<Rightarrow> string \<Rightarrow> SortConfig \<Rightarrow> int \<Rightarrow> nat \<times> array_store" where
  "displayedPage_mem P h tasks searchTerm sortConfig currentPage =
     (let (filtered, h1) = filteredTasks_mem P h tasks searchTerm sortConfig
      in paginatedTasks_mem h1 filtered currentPage)"

section \<open>The earlier revision of the pipeline (src/src/app/page.tsx)\<close>

text \<open>
  The file src/src/app/page.tsx holds an earlier revision of the same component (it
  seeds 5 sample tasks; the later one carries the remark that the count was raised from
  5 to 35). Its pipeline filters before it sorts, searches the description and two
  renderings of the date only, sorts the array it is given when there is no search
  term, and does not correct the current page. It is modelled here to state where the
  two revisions differ; the comparison function is the same.
\<close>

definition matchesSearch_page :: "Platform \<Rightarrow> string \<Rightarrow> Task \<Rightarrow> bool" where
  "matchesSearch_page P lowerCaseSearchTerm task \<longleftrightarrow>
     str_includes (toLowerCase P (description task)) lowerCaseSearchTerm \<or>
     str_includes (format P (date task) ''yyyy-MM-dd'') lowerCaseSearchTerm \<or>
     str_includes (toLowerCase P (format P (date task) ''PP'')) lowerCaseSearchTerm"

definition filteredTasks_page_mem ::
  "Platform \<Rightarrow> array_store \<Rightarrow> nat \<Rightarrow> string \<Rightarrow> SortConfig \<Rightarrow> nat \<times> array_store" where
  "filteredTasks_page_mem P h tasks searchTerm sortConfig =
     (let (filtered, h1) =
            (if searchTerm \<noteq> []
             then new_array h (filter (matchesSearch_page P (toLowerCase P searchTerm)) (h ! tasks))
             else (tasks, h));
          h2 = (case key sortConfig of
                  Some k \<Rightarrow> sort_in_place h1 filtered (compareFn P k (direction sortConfig))
                | None \<Rightarrow> h1)
      in (filtered, h2))"

definition paginatedTasks_page :: "Task list \<Rightarrow> int \<Rightarrow> Task list" where
  "paginatedTasks_page filtered currentPage =
     (let startIndex = (currentPage - 1) * TASKS_PER_PAGE;
          endIndex = startIndex + TASKS_PER_PAGE
      in slice filtered startIndex endIndex)"

section \<open>The component's state and the persisted slot\<close>

text \<open>
  The value kept under the key \<^verbatim>\<open>"tasks"\<close> of \<^verbatim>\<open>localStorage\<close> is text;
  \<^verbatim>\<open>JSON.stringify\<close> and \<^verbatim>\<open>JSON.parse\<close> are taken at the level of the JSON value
  the text denotes. \<open>Garbled\<close> is a non-empty text that \<^verbatim>\<open>JSON.parse\<close> rejects; the
  slot is \<open>None\<close> when \<^verbatim>\<open>getItem\<close> returns a falsy value (no item, or the empty
  text).
\<close>

datatype json =
  JNull | JBool bool | JNumber int | JString string
| JArray "json list" | JObject "(string \<times> json) list"

datatype Stored = Text json | Garbled

record Toast =
  title :: string
  toast_description :: string
  variant :: "string option"

text \<open>The values a submitted form yields (\<^verbatim>\<open>z.infer<typeof taskSchema>\<close>).\<close>

record FormValues =
  v_id :: "string option"
  v_date :: int
  v_description :: string
  v_link :: "string option"
  v_status :: TaskStatus

text \<open>
  The state hooks of \<^verbatim>\<open>TaskTrackerPage\<close>, with the two things outside it that the
  handlers and effects write to: the toasts sent so far and the persisted slot.
\<close>

record App =
  tasks :: "Task list"
  editingTask :: "Task option"
  searchTerm :: string
  currentPage :: int
  sortConfig :: SortConfig
  isClient :: bool
  toasts :: "Toast list"
  localStorage_tasks :: "Stored option"

definition initial_App :: App where
  "initial_App =
     \<lparr>tasks = [], editingTask = None, searchTerm = [], currentPage = 1,
      sortConfig = \<lparr>key = Some K_date, direction = descending\<rparr>,
      isClient = False, toasts = [], localStorage_tasks = None\<rparr>"

subsection \<open>Identifiers\<close>

text \<open>
  \<^verbatim>\<open>'_' + Math.random().toString(36).substr(2, 9)\<close>. The argument is the text
  \<^verbatim>\<open>Math.random().toString(36)\<close> of this call (\<^verbatim>\<open>"0.i"\<close> when the draw is one half):
  the draw is an input of the model.
\<close>

definition substr :: "string \<Rightarrow> nat \<Rightarrow> nat \<Rightarrow> string" where
  "substr s start len = take len (drop start s)"

definition generateId :: "string \<Rightarrow> string" where
  "generateId random_text = CHR ''_'' # substr random_text 2 9"

subsection \<open>Serialisation\<close>

text \<open>
  \<^verbatim>\<open>JSON.stringify(tasks)\<close>: a date is written as the string its \<^verbatim>\<open>toJSON\<close>
  returns, a property that is \<^verbatim>\<open>undefined\<close> is left out. The order of the
  properties in the text plays no part when the value is read back.
\<close>

definition task_json :: "Platform \<Rightarrow> Task \<Rightarrow> json" where
  "task_json P t =
     JObject
       ([(''id'', JString (task_id t)),
         (''date'', JString (toISOString P (date t))),
         (''description'', JString (description t))]
        @ (case link t of None \<Rightarrow> [] | Some l \<Rightarrow> [(''link'', JString l)])
        @ [(''status'', JString (status_text (status t)))])"

definition JSON_stringify :: "Platform \<Rightarrow> Task list \<Rightarrow> json" where
  "JSON_stringify P ts = JArray (map (task_json P) ts)"

text \<open>
  Reading back: \<^verbatim>\<open>JSON.parse(storedTasks).map((task) => ({...task, date: new
  Date(task.date)}))\<close>. An element is revived into a task when it is an object with
  the properties of a task and nothing else. \<open>Throws\<close> is a \<^verbatim>\<open>TypeError\<close> (reading
  \<^verbatim>\<open>date\<close> of \<^verbatim>\<open>null\<close>, or calling \<^verbatim>\<open>map\<close> on what is not an array).
  \<open>Outside\<close> marks a stored value on which the source goes on with an object that is
  not a \<^verbatim>\<open>Task\<close> (a property missing or of another type, an invalid date): the
  model has no value for it and stops there.
\<close>

datatype 'a attempt = Throws | Outside | Done 'a

definition property :: "(string \<times> json) list \<Rightarrow> string \<Rightarrow> json option" where
  "property kvs k = map_of (rev kvs) k"

definition status_of_text :: "string \<Rightarrow> TaskStatus option" where
  "status_of_text s =
     (if s = ''Pending'' then Some Pending
      else if s = ''Completed'' then Some Completed else None)"

text \<open>
  \<^verbatim>\<open>new Date(value)\<close> for a string (read by the platform) and for a number, which is
  a time value when it is within 8.64e15 milliseconds of the epoch and the invalid date
  otherwise.
\<close>

definition new_Date :: "Platform \<Rightarrow> json option \<Rightarrow> int option" where
  "new_Date P v =
     (case v of
        Some (JString s) \<Rightarrow> Date_parse P s
      | Some (JNumber n) \<Rightarrow> (if \<bar>n\<bar> \<le> 8640000000000000 then Some n else None)
      | _ \<Rightarrow> None)"

definition revive :: "Platform \<Rightarrow> json \<Rightarrow> Task attempt" where
  "revive P j =
     (case j of
        JNull \<Rightarrow> Throws
      | JObject kvs \<Rightarrow>
          (if \<not> list_all (\<lambda>k. k \<in> set [''id'', ''date'', ''description'', ''link'', ''status''])
                  (map fst kvs)
           then Outside
           else
             (case (property kvs ''id'', new_Date P (property kvs ''date''),
                    property kvs ''description'', property kvs ''status'') of
                (Some (JString i), Some d, Some (JString descr), Some (JString st)) \<Rightarrow>
                  (case (status_of_text st, property kvs ''link'') of
                     (Some stat, None) \<Rightarrow>
                        Done \<lparr>task_id = i, date = d, description = descr, link = None,
                              status = stat\<rparr>
                   | (Some stat, Some (JString l)) \<Rightarrow>
                        Done \<lparr>task_id = i, date = d, description = descr, link = Some l,
                              status = stat\<rparr>
                   | _ \<Rightarrow> Outside)
              | _ \<Rightarrow> Outside))
      | _ \<Rightarrow> Outside)"

fun revive_all :: "Platform \<Rightarrow> json list \<Rightarrow> Task list attempt" where
  "revive_all P [] = Done []"
| "revive_all P (j # js) =
     (case revive P j of
        Throws \<Rightarrow> Throws
      | Outside \<Rightarrow> (case revive_all P js of Throws \<Rightarrow> Throws | _ \<Rightarrow> Outside)
      | Done t \<Rightarrow>
          (case revive_all P js of
             Throws \<Rightarrow> Throws | Outside \<Rightarrow> Outside | Done ts \<Rightarrow> Done (t # ts)))"

definition parsedTasks :: "Platform \<Rightarrow> Stored \<Rightarrow> Task list attempt" where
  "parsedTasks P stored =
     (case stored of
        Garbled \<Rightarrow> Throws
      | Text (JArray js) \<Rightarrow> revive_all P js
      | Text _ \<Rightarrow> Throws)"

subsection \<open>Handlers\<close>

definition success_toast :: "string \<Rightarrow> Toast" where
  "success_toast msg = \<lparr>title = ''Success'', toast_description = msg, variant = None\<rparr>"

text \<open>\<^verbatim>\<open>values.link || undefined\<close>: the empty string is falsy.\<close>

definition link_or_undefined :: "string option \<Rightarrow> string option" where
  "link_or_undefined l = (case l of None \<Rightarrow> None | Some u \<Rightarrow> if u = [] then None else Some u)"

definition handleAddTask :: "FormValues \<Rightarrow> string \<Rightarrow> App \<Rightarrow> App" where
  "handleAddTask values random_text s =
     (let newTask =
            \<lparr>task_id = generateId random_text, date = v_date values,
             description = v_description values, link = link_or_undefined (v_link values),
             status = v_status values\<rparr>
      in s\<lparr>tasks := newTask # tasks s,
           currentPage := 1,
           sortConfig := \<lparr>key = Some K_date, direction = descending\<rparr>,
           toasts := toasts s @ [success_toast ''Task added successfully.'']\<rparr>)"

definition handleUpdateTask :: "FormValues \<Rightarrow> App \<Rightarrow> App" where
  "handleUpdateTask values s =
     (case editingTask s of
        None \<Rightarrow> s
      | Some editing \<Rightarrow>
          (let updatedTask =
                 \<lparr>task_id = task_id editing, date = v_date values,
                  description = v_description values,
                  link = link_or_undefined (v_link values), status = v_status values\<rparr>
           in s\<lparr>tasks := map (\<lambda>task. if task_id task = task_id editing then updatedTask else task)
                              (tasks s),
                editingTask := None,
                toasts := toasts s @ [success_toast ''Task updated successfully.'']\<rparr>))"

definition handleDeleteTask :: "string \<Rightarrow> App \<Rightarrow> App" where
  "handleDeleteTask ident s =
     (let newTasks = filter (\<lambda>task. task_id task \<noteq> ident) (tasks s);
          newTotalPages = totalPages newTasks
      in s\<lparr>tasks := newTasks,
           currentPage :=
             (if currentPage s > newTotalPages \<and> newTotalPages > 0 then newTotalPages
              else if length newTasks = 0 then 1
              else currentPage s),
           toasts := toasts s @ [success_toast ''Task deleted successfully.'']\<rparr>)"

definition startEditing :: "Task \<Rightarrow> App \<Rightarrow> App" where
  "startEditing task s = s\<lparr>editingTask := Some task\<rparr>"

definition cancelEditing :: "App \<Rightarrow> App" where
  "cancelEditing s = s\<lparr>editingTask := None\<rparr>"

definition requestSort :: "TaskKey \<Rightarrow> App \<Rightarrow> App" where
  "requestSort k s =
     (let dir =
            (if key (sortConfig s) = Some k \<and> direction (sortConfig s) = ascending
             then descending
             else if key (sortConfig s) = Some k \<and> direction (sortConfig s) = descending
             then ascending
             else ascending)
      in s\<lparr>sortConfig := \<lparr>key = Some k, direction = dir\<rparr>, currentPage := 1\<rparr>)"

definition handleSearchChange :: "string \<Rightarrow> App \<Rightarrow> App" where
  "handleSearchChange v s = s\<lparr>searchTerm := v, currentPage := 1\<rparr>"

definition clearSearch :: "App \<Rightarrow> App" where
  "clearSearch s = s\<lparr>searchTerm := [], currentPage := 1\<rparr>"

text \<open>The value \<^verbatim>\<open>totalPages\<close> of the current render.\<close>

definition totalPages_of :: "Platform \<Rightarrow> App \<Rightarrow> int" where
  "totalPages_of P s = totalPages (filteredTasks P (tasks s) (searchTerm s) (sortConfig s))"

definition goToPage :: "Platform \<Rightarrow> int \<Rightarrow> App \<Rightarrow> App" where
  "goToPage P page s = s\<lparr>currentPage := validCurrentPage page (totalPages_of P s)\<rparr>"

text \<open>
  Computing \<^verbatim>\<open>paginatedTasks\<close> during a render also stores the corrected page:
  \<^verbatim>\<open>if (currentPage !== validCurrentPage) setCurrentPage(validCurrentPage)\<close>.
\<close>

definition render_page :: "Platform \<Rightarrow> App \<Rightarrow> App" where
  "render_page P s = s\<lparr>currentPage := validCurrentPage (currentPage s) (totalPages_of P s)\<rparr>"

text \<open>The user's actions, each with the handler it runs.\<close>

datatype Action =
  AddTask FormValues string
| UpdateTask FormValues
| DeleteTask string
| StartEditing Task
| CancelEditing
| RequestSort TaskKey
| SearchChange string
| ClearSearch
| GoToPage int

fun dispatch :: "Platform \<Rightarrow> Action \<Rightarrow> App \<Rightarrow> App" where
  "dispatch P (AddTask values random_text) s = handleAddTask values random_text s"
| "dispatch P (UpdateTask values) s = handleUpdateTask values s"
| "dispatch P (DeleteTask ident) s = handleDeleteTask ident s"
| "dispatch P (StartEditing task) s = startEditing task s"
| "dispatch P CancelEditing s = cancelEditing s"
| "dispatch P (RequestSort k) s = requestSort k s"
| "dispatch P (SearchChange v) s = handleSearchChange v s"
| "dispatch P ClearSearch s = clearSearch s"
| "dispatch P (GoToPage page) s = goToPage P page s"

subsection \<open>Effects: saving and loading\<close>

text \<open>
  The save effect. \<open>writable\<close> tells whether \<^verbatim>\<open>localStorage.setItem\<close> returns
  (it throws, for one, when the quota is exceeded).
\<close>

definition saveEffect :: "Platform \<Rightarrow> bool \<Rightarrow> App \<Rightarrow> App" where
  "saveEffect P writable s =
     (if isClient s
      then (if writable
            then s\<lparr>localStorage_tasks := Some (Text (JSON_stringify P (tasks s)))\<rparr>
            else s\<lparr>toasts := toasts s @
                   [\<lparr>title = ''Error Saving Tasks'',
                     toast_description = ''Could not save tasks locally.'',
                     variant = Some ''destructive''\<rparr>]\<rparr>)
      else s)"

text \<open>Decimal digits of a number, as a template literal prints it.\<close>

fun showNat :: "nat \<Rightarrow> string" where
  "showNat n =
     (if n < 10 then [char_of (48 + n)]
      else showNat (n div 10) @ [char_of (48 + n mod 10)])"

declare showNat.simps [simp del]

text \<open>
  The sample tasks of a first run. \<open>random_text i\<close> and \<open>now i\<close> are what
  \<^verbatim>\<open>Math.random().toString(36)\<close> and \<^verbatim>\<open>Date.now()\<close> return in the call for the
  index \<open>i\<close>.
\<close>

definition dummyTask :: "(nat \<Rightarrow> string) \<Rightarrow> (nat \<Rightarrow> int) \<Rightarrow> nat \<Rightarrow> Task" where
  "dummyTask random_text now i =
     \<lparr>task_id = generateId (random_text i),
      date = now i - int i * 24 * 60 * 60 * 1000,
      description = ''Sample Task '' @ showNat (i + 1) @ '' description about something important.'',
      link = (if i mod 5 = 0 then Some (''https://example.com/task/'' @ showNat (i + 1)) else None),
      status = (if i mod 3 = 0 then Completed else Pending)\<rparr>"

definition dummyTasks :: "(nat \<Rightarrow> string) \<Rightarrow> (nat \<Rightarrow> int) \<Rightarrow> Task list" where
  "dummyTasks random_text now = map (dummyTask random_text now) [0..<35]"

definition load_failed :: "App \<Rightarrow> App" where
  "load_failed s =
     s\<lparr>tasks := [],
       toasts := toasts s @
         [\<lparr>title = ''Error Loading Tasks'',
           toast_description = ''Could not load tasks from local storage.'',
           variant = Some ''destructive''\<rparr>]\<rparr>"

text \<open>
  The load effect, run once when the component mounts. \<open>readable\<close> and \<open>writable\<close>
  tell whether \<^verbatim>\<open>getItem\<close> and \<^verbatim>\<open>setItem\<close> return; every exception ends in the
  \<^verbatim>\<open>catch\<close> branch \<open>load_failed\<close>. The result is \<open>None\<close> on a stored value that
  is \<open>Outside\<close>.
\<close>

definition loadEffect ::
  "Platform \<Rightarrow> (nat \<Rightarrow> string) \<Rightarrow> (nat \<Rightarrow> int) \<Rightarrow> bool \<Rightarrow> bool \<Rightarrow> App \<Rightarrow> App option" where
  "loadEffect P random_text now readable writable s0 =
     (let s = s0\<lparr>isClient := True\<rparr>
      in if \<not> readable then Some (load_failed s)
         else
           (case localStorage_tasks s of
              Some storedTasks \<Rightarrow>
                (case parsedTasks P storedTasks of
                   Throws \<Rightarrow> Some (load_failed s)
                 | Outside \<Rightarrow> None
                 | Done ts \<Rightarrow> Some (s\<lparr>tasks := ts\<rparr>))
            | None \<Rightarrow>
                (let dummy = dummyTasks random_text now
                 in if writable
                    then Some (s\<lparr>tasks := dummy,
                                localStorage_tasks := Some (Text (JSON_stringify P dummy))\<rparr>)
                    else Some (load_failed s))))"

section \<open>A concrete platform for the examples\<close>

text \<open>
  To run the model on examples the platform is instantiated at plain text in the letters
  of ASCII, the time zone UTC and the patterns of an English locale. The theorems below
  do not depend on it: they hold for every platform.
\<close>

definition ascii_lower :: "char \<Rightarrow> char" where
  "ascii_lower c =
     (let n = (of_char c :: nat) in if 65 \<le> n \<and> n \<le> 90 then char_of (n + 32) else c)"

fun code_unit_compare :: "string \<Rightarrow> string \<Rightarrow> int" where
  "code_unit_compare [] [] = 0"
| "code_unit_compare [] (y # ys) = - 1"
| "code_unit_compare (x # xs) [] = 1"
| "code_unit_compare (x # xs) (y # ys) =
     (if (of_char x :: nat) < of_char y then - 1
      else if (of_char y :: nat) < of_char x then 1
      else code_unit_compare xs ys)"

text \<open>The civil date (year, month, day) of a day number counted from 1970-01-01.\<close>

definition civil_from_days :: "int \<Rightarrow> int \<times> nat \<times> nat" where
  "civil_from_days z0 =
     (let z = z0 + 719468;
          era = z div 146097;
          doe = z mod 146097;
          yoe = (doe - doe div 1460 + doe div 36524 - doe div 146096) div 365;
          doy = doe - (365 * yoe + yoe div 4 - yoe div 100);
          mp = (5 * doy + 2) div 153;
          d = doy - (153 * mp + 2) div 5 + 1;
          m = (if mp < 10 then mp + 3 else mp - 9);
          y = yoe + era * 400 + (if m \<le> 2 then 1 else 0)
      in (y, nat m, nat d))"

definition days_from_civil :: "int \<Rightarrow> int \<Rightarrow> int \<Rightarrow> int" where
  "days_from_civil y0 m d =
     (let y = (if m \<le> 2 then y0 - 1 else y0);
          era = y div 400;
          yoe = y mod 400;
          doy = (153 * (if m > 2 then m - 3 else m + 9) + 2) div 5 + d - 1;
          doe = yoe * 365 + yoe div 4 - yoe div 100 + doy
      in era * 146097 + doe - 719468)"

definition pad :: "nat \<Rightarrow> nat \<Rightarrow> string" where
  "pad width n = replicate (width - length (showNat n)) CHR ''0'' @ showNat n"

definition show_year :: "int \<Rightarrow> string" where
  "show_year y = (if y < 0 then CHR ''-'' # showNat (nat (- y)) else showNat (nat y))"

definition month_name :: "nat \<Rightarrow> string" where
  "month_name m =
     [''January'', ''February'', ''March'', ''April'', ''May'', ''June'', ''July'',
      ''August'', ''September'', ''October'', ''November'', ''December''] ! (m - 1)"

definition ordinal :: "nat \<Rightarrow> string" where
  "ordinal d =
     showNat d @
     (if d mod 100 \<in> set [11, 12, 13] then ''th''
      else if d mod 10 = 1 then ''st''
      else if d mod 10 = 2 then ''nd''
      else if d mod 10 = 3 then ''rd''
      else ''th'')"

fun format_civil :: "string \<Rightarrow> int \<times> nat \<times> nat \<Rightarrow> string" where
  "format_civil pattern (y, m, d) =
     (if pattern = ''yyyy-MM-dd''
      then (if y < 0 then CHR ''-'' # pad 4 (nat (- y)) else pad 4 (nat y))
           @ ''-'' @ pad 2 m @ ''-'' @ pad 2 d
      else if pattern = ''PPP''
      then month_name m @ '' '' @ ordinal d @ '', '' @ show_year y
      else if pattern = ''PP''
      then take 3 (month_name m) @ '' '' @ showNat d @ '', '' @ show_year y
      else pattern)"

definition format_utc :: "int \<Rightarrow> string \<Rightarrow> string" where
  "format_utc t pattern = format_civil pattern (civil_from_days (t div 86400000))"

fun iso_civil :: "int \<times> nat \<times> nat \<Rightarrow> int \<Rightarrow> string" where
  "iso_civil (y, m, d) ms =
     (if 0 \<le> y \<and> y \<le> 9999 then pad 4 (nat y)
      else (if y < 0 then CHR ''-'' else CHR ''+'') # pad 6 (nat \<bar>y\<bar>))
     @ ''-'' @ pad 2 m @ ''-'' @ pad 2 d @ ''T''
     @ pad 2 (nat (ms div 3600000)) @ '':'' @ pad 2 (nat (ms div 60000 mod 60)) @ '':''
     @ pad 2 (nat (ms div 1000 mod 60)) @ ''.'' @ pad 3 (nat (ms mod 1000)) @ ''Z''"

definition toISOString_utc :: "int \<Rightarrow> string" where
  "toISOString_utc t = iso_civil (civil_from_days (t div 86400000)) (t mod 86400000)"

definition digits_value :: "string \<Rightarrow> nat option" where
  "digits_value s =
     (if s \<noteq> [] \<and> list_all (\<lambda>c. 48 \<le> (of_char c :: nat) \<and> (of_char c :: nat) \<le> 57) s
      then Some (foldl (\<lambda>a c. 10 * a + (of_char c - 48)) 0 s)
      else None)"

text \<open>
  Reads the string \<open>toISOString_utc\<close> writes for a year from 0 to 9999; every other
  string is left to the real \<^verbatim>\<open>Date.parse\<close>, which accepts more.
\<close>

definition Date_parse_iso :: "string \<Rightarrow> int option" where
  "Date_parse_iso s =
     (if length s = 24 \<and> map (\<lambda>i. s ! i) [4, 7, 10, 13, 16, 19, 23] = ''--T::.Z''
      then (case (digits_value (take 4 s), digits_value (take 2 (drop 5 s)),
                  digits_value (take 2 (drop 8 s)), digits_value (take 2 (drop 11 s)),
                  digits_value (take 2 (drop 14 s)), digits_value (take 2 (drop 17 s)),
                  digits_value (take 3 (drop 20 s))) of
              (Some y, Some m, Some d, Some h, Some mi, Some sec, Some ms) \<Rightarrow>
                Some (days_from_civil (int y) (int m) (int d) * 86400000
                      + int h * 3600000 + int mi * 60000 + int sec * 1000 + int ms)
            | _ \<Rightarrow> None)
      else None)"

definition example_platform :: Platform where
  "example_platform =
     \<lparr>localeCompare = code_unit_compare, toLowerCase = map ascii_lower,
      format = format_utc, toISOString = toISOString_utc, Date_parse = Date_parse_iso\<rparr>"

section \<open>Example data\<close>

text \<open>Three tasks and the sort the component starts with, for the examples below.\<close>

definition initial_sort :: SortConfig where
  "initial_sort = \<lparr>key = Some K_date, direction = descending\<rparr>"

definition example_tasks :: "Task list" where
  "example_tasks =
     [\<lparr>task_id = ''_a1'', date = 1704067200000, description = ''Write the report'',
       link = None, status = Pending\<rparr>,
      \<lparr>task_id = ''_b2'', date = 1706745600000, description = ''Review the budget'',
       link = Some ''https://example.com/budget'', status = Completed\<rparr>,
      \<lparr>task_id = ''_c3'', date = 1705276800000, description = ''Plan the REPORT meeting'',
       link = None, status = Pending\<rparr>]"

definition example_values :: FormValues where
  "example_values =
     \<lparr>v_id = None, v_date = 1704067200000, v_description = ''X'', v_link = Some [],
      v_status = Pending\<rparr>"

text \<open>
  A reload of the page: the component starts again from its initial state, and the
  persisted slot is what the last session left.
\<close>

definition remount :: "App \<Rightarrow> App" where
  "remount s = initial_App\<lparr>localStorage_tasks := localStorage_tasks s\<rparr>"

section \<open>Facts about the stages\<close>

subsection \<open>The sort\<close>

lemma set_insort_cmp: "set (insort_cmp cmp x xs) = insert x (set xs)"
  by (induction xs) auto

lemma set_array_sort: "set (array_sort cmp xs) = set xs"
  by (induction xs) (simp_all add: array_sort_def set_insort_cmp)

lemma length_insort_cmp: "length (insort_cmp cmp x xs) = Suc (length xs)"
  by (induction xs) auto

lemma length_array_sort: "length (array_sort cmp xs) = length xs"
  by (induction xs) (simp_all add: array_sort_def length_insort_cmp)

lemma mset_insort_cmp: "mset (insort_cmp cmp x xs) = add_mset x (mset xs)"
  by (induction xs) auto

lemma mset_array_sort: "mset (array_sort cmp xs) = mset xs"
  by (induction xs) (simp_all add: array_sort_def mset_insort_cmp)

lemma array_sort_Cons: "array_sort cmp (x # xs) = insort_cmp cmp x (array_sort cmp xs)"
  by (simp add: array_sort_def)

lemma insort_cmp_front:
  "sorted_wrt (\<lambda>a b. cmp a b \<le> 0) (x # xs) \<Longrightarrow> insort_cmp cmp x xs = x # xs"
  by (cases xs) auto

text \<open>An array that is in order already is left as it is.\<close>

lemma array_sort_sorted_id:
  "sorted_wrt (\<lambda>a b. cmp a b \<le> 0) xs \<Longrightarrow> array_sort cmp xs = xs"
proof (induction xs)
  case Nil
  then show ?case by (simp add: array_sort_def)
next
  case (Cons x xs)
  from Cons.prems have "sorted_wrt (\<lambda>a b. cmp a b \<le> 0) xs" by simp
  then have "array_sort cmp xs = xs" by (rule Cons.IH)
  then show ?case using Cons.prems by (simp only: array_sort_Cons insort_cmp_front)
qed

text \<open>With a comparison that is total and transitive the result is in order.\<close>

lemma sorted_insort_cmp:
  assumes total: "\<And>a b. \<not> cmp a b \<le> 0 \<Longrightarrow> cmp b a \<le> 0"
    and trans: "\<And>a b c. cmp a b \<le> 0 \<Longrightarrow> cmp b c \<le> 0 \<Longrightarrow> cmp a c \<le> 0"
  shows "sorted_wrt (\<lambda>a b. cmp a b \<le> 0) xs \<Longrightarrow>
         sorted_wrt (\<lambda>a b. cmp a b \<le> 0) (insort_cmp cmp x xs)"
proof (induction xs)
  case Nil
  then show ?case by simp
next
  case (Cons y ys)
  show ?case
  proof (cases "cmp x y \<le> 0")
    case True
    then have "\<forall>z\<in>set ys. cmp x z \<le> 0" using Cons.prems trans by auto
    with True Cons.prems show ?thesis by simp
  next
    case False
    then have "cmp y x \<le> 0" by (rule total)
    moreover have "sorted_wrt (\<lambda>a b. cmp a b \<le> 0) (insort_cmp cmp x ys)"
      using Cons by simp
    ultimately show ?thesis using False Cons.prems by (auto simp: set_insort_cmp)
  qed
qed

lemma sorted_array_sort:
  assumes total: "\<And>a b. \<not> cmp a b \<le> 0 \<Longrightarrow> cmp b a \<le> 0"
    and trans: "\<And>a b c. cmp a b \<le> 0 \<Longrightarrow> cmp b c \<le> 0 \<Longrightarrow> cmp a c \<le> 0"
  shows "sorted_wrt (\<lambda>a b. cmp a b \<le> 0) (array_sort cmp xs)"
proof (induction xs)
  case Nil
  show ?case by (simp add: array_sort_def)
next
  case (Cons x xs)
  have "sorted_wrt (\<lambda>a b. cmp a b \<le> 0) (insort_cmp cmp x (array_sort cmp xs))"
    by (rule sorted_insort_cmp [OF total trans Cons.IH])
  then show ?case by (simp only: array_sort_Cons)
qed

lemma compareFn_date_descending: "compareFn P K_date descending a b = date b - date a"
  by (simp add: compareFn_def)

lemma sortStage_default_descending:
  "sorted_wrt (\<lambda>a b. date b \<le> date a)
     (sortStage P \<lparr>key = Some K_date, direction = descending\<rparr> ts)"
proof -
  let ?cmp = "compareFn P K_date descending"
  have "sorted_wrt (\<lambda>a b. ?cmp a b \<le> 0) (array_sort ?cmp ts)"
    by (rule sorted_array_sort) (simp_all add: compareFn_date_descending)
  then show ?thesis by (simp add: sortStage_def compareFn_date_descending)
qed

lemma set_sortStage: "set (sortStage P cfg ts) = set ts"
  by (simp add: sortStage_def set_array_sort split: option.split)

lemma mset_sortStage: "mset (sortStage P cfg ts) = mset ts"
  by (simp add: sortStage_def mset_array_sort split: option.split)

lemma length_sortStage: "length (sortStage P cfg ts) = length ts"
  by (simp add: sortStage_def length_array_sort split: option.split)

subsection \<open>The page count and the slice\<close>

lemma totalPages_div: "totalPages xs = (int (length xs) + 29) div 30"
proof -
  have "\<lceil>real (length xs) / 30\<rceil> = \<lceil>real_of_int (int (length xs)) / real_of_int 30\<rceil>"
    by simp
  also have "\<dots> = - ((- int (length xs)) div 30)"
    by (simp only: ceiling_divide_eq_div)
  also have "\<dots> = (int (length xs) + 29) div 30"
    by linarith
  finally show ?thesis by (simp add: totalPages_def TASKS_PER_PAGE_def)
qed

lemma totalPages_Nil: "totalPages [] = 0"
  by (simp add: totalPages_div)

lemma totalPages_pos: "xs \<noteq> [] \<Longrightarrow> 1 \<le> totalPages xs"
proof -
  assume "xs \<noteq> []"
  then have "1 \<le> int (length xs)" by (cases xs) simp_all
  then show ?thesis unfolding totalPages_div by linarith
qed

lemma slice_Nil: "slice [] i j = []"
  by (simp add: slice_def Let_def)

lemma slice_window:
  "0 \<le> i \<Longrightarrow> 0 \<le> n \<Longrightarrow> slice xs i (i + n) = take (nat n) (drop (nat i) xs)"
proof -
  assume i: "0 \<le> i" and n: "0 \<le> n"
  let ?len = "int (length xs)"
  show ?thesis
  proof (cases "i \<le> ?len")
    case True
    then have "take (nat (min (i + n) ?len - i)) (drop (nat i) xs)
             = take (nat n) (drop (nat i) xs)"
      using i n by (cases "i + n \<le> ?len") (simp_all add: min_def nat_diff_distrib)
    then show ?thesis using i n True by (simp add: slice_def Let_def min_def)
  next
    case False
    then show ?thesis using i n by (simp add: slice_def Let_def min_def)
  qed
qed

lemma validCurrentPage_range:
  "1 \<le> validCurrentPage page n \<and> validCurrentPage page n \<le> max 1 n"
  if "0 \<le> n"
  using that by (auto simp: validCurrentPage_def)

lemma totalPages_nonneg: "0 \<le> totalPages xs"
  unfolding totalPages_div by linarith

lemma page_start_inside:
  assumes "xs \<noteq> []" and "1 \<le> v" and "v \<le> totalPages xs"
  shows "nat ((v - 1) * 30) < length xs"
proof -
  from assms(3) have "v \<le> (int (length xs) + 29) div 30" by (simp only: totalPages_div)
  then have "30 * v \<le> int (length xs) + 29" by linarith
  then have "(v - 1) * 30 < int (length xs)" by (simp add: algebra_simps)
  moreover have "0 \<le> (v - 1) * 30" using assms(2) by simp
  ultimately show ?thesis by linarith
qed

lemma paginatedTasks_window:
  "paginatedTasks ft page
     = take 30 (drop (nat ((validCurrentPage page (totalPages ft) - 1) * 30)) ft)"
proof -
  let ?v = "validCurrentPage page (totalPages ft)"
  have "1 \<le> ?v" using validCurrentPage_range [OF totalPages_nonneg] by blast
  then have "0 \<le> (?v - 1) * 30" by simp
  then have "slice ft ((?v - 1) * 30) ((?v - 1) * 30 + 30)
               = take (nat 30) (drop (nat ((?v - 1) * 30)) ft)"
    by (rule slice_window) simp
  then show ?thesis by (simp add: paginatedTasks_def TASKS_PER_PAGE_def Let_def)
qed

subsection \<open>Comparator order and stability\<close>

text \<open>
  With a transitive comparison the sort keeps the tasks that compare equal to a given task
  in the order in which they were.
\<close>

lemma filter_class_insort_cmp:
  assumes trans: "\<And>a b c. cmp a b \<le> 0 \<Longrightarrow> cmp b c \<le> 0 \<Longrightarrow> cmp a c \<le> 0"
  shows "filter (\<lambda>t. cmp t a \<le> 0 \<and> cmp a t \<le> 0) (insort_cmp cmp x ys)
           = (if cmp x a \<le> 0 \<and> cmp a x \<le> 0
              then x # filter (\<lambda>t. cmp t a \<le> 0 \<and> cmp a t \<le> 0) ys
              else filter (\<lambda>t. cmp t a \<le> 0 \<and> cmp a t \<le> 0) ys)"
proof (induction ys)
  case Nil
  show ?case by simp
next
  case (Cons y ys)
  show ?case
  proof (cases "cmp x y \<le> 0")
    case True
    then show ?thesis by simp
  next
    case False
    have "\<not> (cmp x a \<le> 0 \<and> cmp a y \<le> 0)" using False trans by blast
    then show ?thesis using False Cons.IH by auto
  qed
qed

lemma array_sort_stable:
  assumes trans: "\<And>a b c. cmp a b \<le> 0 \<Longrightarrow> cmp b c \<le> 0 \<Longrightarrow> cmp a c \<le> 0"
  shows "filter (\<lambda>t. cmp t a \<le> 0 \<and> cmp a t \<le> 0) (array_sort cmp xs)
           = filter (\<lambda>t. cmp t a \<le> 0 \<and> cmp a t \<le> 0) xs"
proof (induction xs)
  case Nil
  show ?case by (simp add: array_sort_def)
next
  case (Cons x xs)
  then show ?case
    by (simp only: array_sort_Cons filter_class_insort_cmp [of cmp, OF trans]) simp
qed

lemma locale_ge_iff:
  assumes anti: "\<And>x y. (localeCompare P x y < 0) = (0 < localeCompare P y x)"
  shows "(0 \<le> localeCompare P x y) = (localeCompare P y x \<le> 0)"
  using anti [of x y] by linarith

lemma compareFn_total:
  assumes anti: "\<And>x y. (localeCompare P x y < 0) = (0 < localeCompare P y x)"
  shows "\<not> compareFn P k dir a b \<le> 0 \<Longrightarrow> compareFn P k dir b a \<le> 0"
  using anti [of "task_id a" "task_id b"] anti [of "task_id b" "task_id a"]
    anti [of "description a" "description b"] anti [of "description b" "description a"]
    anti [of "status_text (status a)" "status_text (status b)"]
    anti [of "status_text (status b)" "status_text (status a)"]
    anti [of "the (link a)" "the (link b)"] anti [of "the (link b)" "the (link a)"]
  by (cases k; cases dir; cases "link a"; cases "link b") (simp_all add: compareFn_def)

lemma compareFn_trans:
  assumes anti: "\<And>x y. (localeCompare P x y < 0) = (0 < localeCompare P y x)"
    and trans: "\<And>x y z. localeCompare P x y \<le> 0 \<Longrightarrow> localeCompare P y z \<le> 0
                  \<Longrightarrow> localeCompare P x z \<le> 0"
  shows "compareFn P k dir a b \<le> 0 \<Longrightarrow> compareFn P k dir b c \<le> 0
         \<Longrightarrow> compareFn P k dir a c \<le> 0"
proof -
  have down: "0 \<le> localeCompare P x z"
    if "0 \<le> localeCompare P x y" and "0 \<le> localeCompare P y z" for x y z
    using that trans [of z y x] by (simp add: locale_ge_iff [OF anti])
  show "compareFn P k dir a b \<le> 0 \<Longrightarrow> compareFn P k dir b c \<le> 0
         \<Longrightarrow> compareFn P k dir a c \<le> 0"
    by (cases k; cases dir; cases "link a"; cases "link b"; cases "link c")
      (auto simp: compareFn_def intro: trans down)
qed

text \<open>The comparison of the example platform is a consistent one.\<close>

lemma code_unit_compare_Cons:
  "code_unit_compare (x # xs) (y # ys)
     = (if (of_char x :: nat) < of_char y then - 1
        else if (of_char y :: nat) < of_char x then 1
        else code_unit_compare xs ys)"
  by (simp only: code_unit_compare.simps)

lemma code_unit_compare_anti:
  "(code_unit_compare x y < 0) = (0 < code_unit_compare y x)"
proof (induction x y rule: code_unit_compare.induct)
  case 1
  show ?case by simp
next
  case (2 y ys)
  show ?case by simp
next
  case (3 x xs)
  show ?case by simp
next
  case (4 x xs y ys)
  define a b where "a = (of_char x :: nat)" and "b = (of_char y :: nat)"
  have l: "code_unit_compare (x # xs) (y # ys)
             = (if a < b then - 1 else if b < a then 1 else code_unit_compare xs ys)"
    and r: "code_unit_compare (y # ys) (x # xs)
             = (if b < a then - 1 else if a < b then 1 else code_unit_compare ys xs)"
    by (simp_all only: code_unit_compare_Cons a_def b_def)
  have ih: "(code_unit_compare xs ys < 0) = (0 < code_unit_compare ys xs)"
    if "\<not> a < b" and "\<not> b < a"
    using "4.IH" that unfolding a_def b_def by blast
  consider "a < b" | "b < a" | "\<not> a < b" "\<not> b < a" by linarith
  then show ?case
  proof cases
    case 1
    then show ?thesis unfolding l r by simp
  next
    case 2
    then show ?thesis unfolding l r by simp
  next
    case 3
    then show ?thesis unfolding l r using ih by simp
  qed
qed

lemma code_unit_compare_trans:
  "code_unit_compare x y \<le> 0 \<Longrightarrow> code_unit_compare y z \<le> 0 \<Longrightarrow> code_unit_compare x z \<le> 0"
proof (induction x y arbitrary: z rule: code_unit_compare.induct)
  case 1
  then show ?case by simp
next
  case (2 y ys)
  then show ?case by (cases z) simp_all
next
  case (3 x xs)
  then show ?case by simp
next
  case (4 x xs y ys)
  show ?case
  proof (cases z)
    case Nil
    with "4.prems"(2) show ?thesis by simp
  next
    case (Cons w ws)
    define a b c where "a = (of_char x :: nat)" and "b = (of_char y :: nat)"
      and "c = (of_char w :: nat)"
    have xy: "code_unit_compare (x # xs) (y # ys)
               = (if a < b then - 1 else if b < a then 1 else code_unit_compare xs ys)"
      and yz: "code_unit_compare (y # ys) (w # ws)
               = (if b < c then - 1 else if c < b then 1 else code_unit_compare ys ws)"
      and xz: "code_unit_compare (x # xs) (w # ws)
               = (if a < c then - 1 else if c < a then 1 else code_unit_compare xs ws)"
      by (simp_all only: code_unit_compare_Cons a_def b_def c_def)
    have ih: "code_unit_compare xs ws \<le> 0"
      if "\<not> a < b" "\<not> b < a" "code_unit_compare xs ys \<le> 0" "code_unit_compare ys ws \<le> 0"
      using "4.IH" [of ws] that unfolding a_def b_def by blast
    from "4.prems"(1) have p1: "(if a < b then - 1 else if b < a then 1 else code_unit_compare xs ys) \<le> 0"
      by (simp only: xy)
    from "4.prems"(2) have p2: "(if b < c then - 1 else if c < b then 1 else code_unit_compare ys ws) \<le> 0"
      by (simp only: yz Cons)
    have ab: "a \<le> b" using p1 by (cases "a < b"; cases "b < a") simp_all
    have bc: "b \<le> c" using p2 by (cases "b < c"; cases "c < b") simp_all
    show ?thesis
    proof (cases "a < c")
      case True
      then show ?thesis unfolding Cons xz by simp
    next
      case False
      with ab bc have e: "a = b" "b = c" by simp_all
      with p1 p2 have "code_unit_compare xs ys \<le> 0" "code_unit_compare ys ws \<le> 0" by simp_all
      with e have "code_unit_compare xs ws \<le> 0" by (intro ih) simp_all
      with e show ?thesis unfolding Cons xz by simp
    qed
  qed
qed

lemma example_platform_consistent:
  "(localeCompare example_platform x y < 0) = (0 < localeCompare example_platform y x)"
  "localeCompare example_platform x y \<le> 0 \<Longrightarrow> localeCompare example_platform y z \<le> 0
     \<Longrightarrow> localeCompare example_platform x z \<le> 0"
  by (simp_all add: example_platform_def code_unit_compare_anti code_unit_compare_trans)

lemma example_compareFn_total:
  "\<not> compareFn example_platform k dir a b \<le> 0 \<Longrightarrow> compareFn example_platform k dir b a \<le> 0"
proof -
  have anti: "\<And>x y. (localeCompare example_platform x y < 0)
                        = (0 < localeCompare example_platform y x)"
    by (rule example_platform_consistent(1))
  show "\<not> compareFn example_platform k dir a b \<le> 0 \<Longrightarrow> compareFn example_platform k dir b a \<le> 0"
    by (rule compareFn_total [of example_platform, OF anti])
qed

lemma example_compareFn_trans:
  assumes "compareFn example_platform k dir a b \<le> 0"
    and "compareFn example_platform k dir b c \<le> 0"
  shows "compareFn example_platform k dir a c \<le> 0"
proof -
  have anti: "\<And>x y. (localeCompare example_platform x y < 0)
                        = (0 < localeCompare example_platform y x)"
    by (rule example_platform_consistent(1))
  have trans: "\<And>x y z. localeCompare example_platform x y \<le> 0
                 \<Longrightarrow> localeCompare example_platform y z \<le> 0
                 \<Longrightarrow> localeCompare example_platform x z \<le> 0"
    by (rule example_platform_consistent(2))
  show ?thesis by (rule compareFn_trans [of example_platform, OF anti trans assms])
qed

lemma compareFn_date_ascending: "compareFn P K_date ascending a b = date a - date b"
  by (simp add: compareFn_def)

lemma sortStage_date_sorted:
  assumes "key cfg = Some K_date"
  shows "sorted_wrt (\<lambda>a b. if direction cfg = ascending then date a \<le> date b else date b \<le> date a)
           (sortStage P cfg ts)"
proof (cases "direction cfg")
  case ascending
  let ?cmp = "compareFn P K_date ascending"
  have "sorted_wrt (\<lambda>a b. ?cmp a b \<le> 0) (array_sort ?cmp ts)"
    by (rule sorted_array_sort) (simp_all add: compareFn_date_ascending)
  then show ?thesis using assms ascending
    by (simp add: sortStage_def compareFn_date_ascending)
next
  case descending
  let ?cmp = "compareFn P K_date descending"
  have "sorted_wrt (\<lambda>a b. ?cmp a b \<le> 0) (array_sort ?cmp ts)"
    by (rule sorted_array_sort) (simp_all add: compareFn_date_descending)
  then show ?thesis using assms descending
    by (simp add: sortStage_def compareFn_date_descending)
qed

section \<open>The claims about the view pipeline\<close>

lemma filterStage_filter:
  "filterStage P term xs
     = filter (\<lambda>t. term = [] \<or> matchesSearch P (toLowerCase P term) t) xs"
  by (simp add: filterStage_def)

lemma common_part_of_two_filters:
  "filter (\<lambda>t. t \<in> set (filter q xs)) (filter p xs) = filter (\<lambda>t. p t \<and> q t) xs"
proof -
  have "filter (\<lambda>t. t \<in> set (filter q xs)) (filter p xs)
          = filter (\<lambda>t. p t \<and> t \<in> set (filter q xs)) xs"
    by simp
  also have "\<dots> = filter (\<lambda>t. p t \<and> q t) xs"
    by (rule filter_cong) auto
  finally show ?thesis .
qed

text \<open>
  C1. For every task collection and view state the displayed page is obtained by
  sorting first, then filtering, then paginating.
  \<^item> The sort stage yields a permutation of the tasks that does not depend on the search
    term. With no sort key it is the collection as stored. With a sort key whose
    comparison is total and transitive it is in the order of that comparison, and tasks
    that compare equal keep their stored order; by date it is in ascending or descending
    order of date on every platform.
  \<^item> The view is the sorted sequence without the tasks that do not match the search
    term, in the order of the sorted sequence.
  \<^item> The page is the window of 30 tasks of the view that starts at the clamped page;
    for a page from 1 to the page count it starts after the first 30 (page - 1) tasks.

  So for any two search terms the tasks visible under both stand in the same relative
  order under both: reading the common tasks off either view gives the same sequence.
\<close>

theorem pipeline_sorts_then_filters_then_paginates:
  "mset (sortStage P cfg ts) = mset ts
   \<and> (key cfg = None \<longrightarrow> sortStage P cfg ts = ts)
   \<and> (\<forall>k. key cfg = Some k
          \<and> (\<forall>a b. \<not> compareFn P k (direction cfg) a b \<le> 0
                  \<longrightarrow> compareFn P k (direction cfg) b a \<le> 0)
          \<and> (\<forall>a b c. compareFn P k (direction cfg) a b \<le> 0
                      \<and> compareFn P k (direction cfg) b c \<le> 0
                  \<longrightarrow> compareFn P k (direction cfg) a c \<le> 0)
        \<longrightarrow> sorted_wrt (\<lambda>a b. compareFn P k (direction cfg) a b \<le> 0) (sortStage P cfg ts)
            \<and> (\<forall>a. filter (\<lambda>t. compareFn P k (direction cfg) t a \<le> 0
                              \<and> compareFn P k (direction cfg) a t \<le> 0) (sortStage P cfg ts)
                   = filter (\<lambda>t. compareFn P k (direction cfg) t a \<le> 0
                              \<and> compareFn P k (direction cfg) a t \<le> 0) ts))
   \<and> (key cfg = Some K_date
        \<longrightarrow> sorted_wrt (\<lambda>a b. if direction cfg = ascending then date a \<le> date b
                                else date b \<le> date a)
              (sortStage P cfg ts))
   \<and> filteredTasks P ts search cfg
       = filter (\<lambda>t. search = [] \<or> matchesSearch P (toLowerCase P search) t) (sortStage P cfg ts)
   \<and> displayedPage P ts search cfg page
       = paginatedTasks (filterStage P search (sortStage P cfg ts)) page
   \<and> displayedPage P ts search cfg page
       = take 30
           (drop (nat ((validCurrentPage page (totalPages (filteredTasks P ts search cfg)) - 1) * 30))
              (filteredTasks P ts search cfg))
   \<and> (1 \<le> page \<and> page \<le> totalPages (filteredTasks P ts search cfg)
        \<longrightarrow> displayedPage P ts search cfg page
              = take 30 (drop (nat ((page - 1) * 30)) (filteredTasks P ts search cfg)))
   \<and> subseq (filteredTasks P ts search cfg) (sortStage P cfg ts)
   \<and> filter (\<lambda>t. t \<in> set (filteredTasks P ts search' cfg)) (filteredTasks P ts search cfg)
     = filter (\<lambda>t. t \<in> set (filteredTasks P ts search cfg)) (filteredTasks P ts search' cfg)"
proof (intro conjI allI impI)
  show "mset (sortStage P cfg ts) = mset ts" by (rule mset_sortStage)
  show "sortStage P cfg ts = ts" if "key cfg = None"
    using that by (simp add: sortStage_def)
next
  fix k
  let ?cmp = "compareFn P k (direction cfg)"
  assume h: "key cfg = Some k
          \<and> (\<forall>a b. \<not> ?cmp a b \<le> 0 \<longrightarrow> ?cmp b a \<le> 0)
          \<and> (\<forall>a b c. ?cmp a b \<le> 0 \<and> ?cmp b c \<le> 0 \<longrightarrow> ?cmp a c \<le> 0)"
  then have sorted_k: "sortStage P cfg ts = array_sort ?cmp ts" by (simp add: sortStage_def)
  have total: "\<And>a b. \<not> ?cmp a b \<le> 0 \<Longrightarrow> ?cmp b a \<le> 0" using h by blast
  have trans: "\<And>a b c. ?cmp a b \<le> 0 \<Longrightarrow> ?cmp b c \<le> 0 \<Longrightarrow> ?cmp a c \<le> 0"
    using h by blast
  show "sorted_wrt (\<lambda>a b. ?cmp a b \<le> 0) (sortStage P cfg ts)"
    unfolding sorted_k by (rule sorted_array_sort [of ?cmp, OF total trans])
  show "filter (\<lambda>t. ?cmp t a \<le> 0 \<and> ?cmp a t \<le> 0) (sortStage P cfg ts)
          = filter (\<lambda>t. ?cmp t a \<le> 0 \<and> ?cmp a t \<le> 0) ts" for a
    unfolding sorted_k by (rule array_sort_stable [of ?cmp, OF trans])
next
  show "sorted_wrt (\<lambda>a b. if direction cfg = ascending then date a \<le> date b
                                else date b \<le> date a)
              (sortStage P cfg ts)" if "key cfg = Some K_date"
    using that by (rule sortStage_date_sorted)
  show view: "filteredTasks P ts search cfg
       = filter (\<lambda>t. search = [] \<or> matchesSearch P (toLowerCase P search) t) (sortStage P cfg ts)"
    by (simp add: filteredTasks_def filterStage_filter)
  show "displayedPage P ts search cfg page
          = paginatedTasks (filterStage P search (sortStage P cfg ts)) page"
    by (simp add: displayedPage_def filteredTasks_def)
  show window: "displayedPage P ts search cfg page
       = take 30
           (drop (nat ((validCurrentPage page (totalPages (filteredTasks P ts search cfg)) - 1) * 30))
              (filteredTasks P ts search cfg))"
    by (simp only: displayedPage_def paginatedTasks_window)
  show "displayedPage P ts search cfg page
              = take 30 (drop (nat ((page - 1) * 30)) (filteredTasks P ts search cfg))"
    if "1 \<le> page \<and> page \<le> totalPages (filteredTasks P ts search cfg)"
  proof -
    have "validCurrentPage page (totalPages (filteredTasks P ts search cfg)) = page"
      using that by (auto simp: validCurrentPage_def)
    then show ?thesis by (simp only: window)
  qed
  show "subseq (filteredTasks P ts search cfg) (sortStage P cfg ts)"
    by (simp add: filteredTasks_def filterStage_filter)
  let ?p = "\<lambda>t. search = [] \<or> matchesSearch P (toLowerCase P search) t"
  let ?q = "\<lambda>t. search' = [] \<or> matchesSearch P (toLowerCase P search') t"
  let ?S = "sortStage P cfg ts"
  have "filter (\<lambda>t. t \<in> set (filter ?q ?S)) (filter ?p ?S) = filter (\<lambda>t. ?p t \<and> ?q t) ?S"
    by (rule common_part_of_two_filters)
  moreover have "filter (\<lambda>t. t \<in> set (filter ?p ?S)) (filter ?q ?S) = filter (\<lambda>t. ?q t \<and> ?p t) ?S"
    by (rule common_part_of_two_filters)
  moreover have "filter (\<lambda>t. ?q t \<and> ?p t) ?S = filter (\<lambda>t. ?p t \<and> ?q t) ?S"
    by (rule filter_cong) auto
  ultimately show
    "filter (\<lambda>t. t \<in> set (filteredTasks P ts search' cfg)) (filteredTasks P ts search cfg)
       = filter (\<lambda>t. t \<in> set (filteredTasks P ts search cfg)) (filteredTasks P ts search' cfg)"
    by (simp only: filteredTasks_def filterStage_filter)
qed

lemma example_view_report:
  "filteredTasks example_platform example_tasks ''Report'' initial_sort
     = [example_tasks ! 2, example_tasks ! 0]"
  by code_simp

lemma example_sorted:
  "sortStage example_platform initial_sort example_tasks
     = [example_tasks ! 1, example_tasks ! 2, example_tasks ! 0]"
  by code_simp

theorem pipeline_sorts_then_filters_then_paginates_witness:
  "key initial_sort = Some K_date
   \<and> sortStage example_platform initial_sort example_tasks
       = [example_tasks ! 1, example_tasks ! 2, example_tasks ! 0]
   \<and> mset (sortStage example_platform initial_sort example_tasks) = mset example_tasks
   \<and> sorted_wrt (\<lambda>a b. date b \<le> date a)
        (sortStage example_platform initial_sort example_tasks)
   \<and> sorted_wrt (\<lambda>a b. compareFn example_platform K_description ascending a b \<le> 0)
        (sortStage example_platform \<lparr>key = Some K_description, direction = ascending\<rparr>
           example_tasks)
   \<and> filteredTasks example_platform example_tasks ''Report'' initial_sort
       = [example_tasks ! 2, example_tasks ! 0]
   \<and> displayedPage example_platform example_tasks ''Report'' initial_sort 1
       = [example_tasks ! 2, example_tasks ! 0]
   \<and> filter (\<lambda>t. t \<in> set (filteredTasks example_platform example_tasks ''2024-01'' initial_sort))
        (filteredTasks example_platform example_tasks ''Report'' initial_sort)
     = filter (\<lambda>t. t \<in> set (filteredTasks example_platform example_tasks ''Report'' initial_sort))
        (filteredTasks example_platform example_tasks ''2024-01'' initial_sort)"
proof -
  note by_date = pipeline_sorts_then_filters_then_paginates
    [where P = example_platform and cfg = initial_sort and ts = example_tasks
       and search = "''Report''" and page = 1 and search' = "''2024-01''"]
  note by_description = pipeline_sorts_then_filters_then_paginates
    [where P = example_platform and cfg = "\<lparr>key = Some K_description, direction = ascending\<rparr>"
       and ts = example_tasks and search = "''Report''" and page = 1 and search' = "''2024-01''"]
  have k: "key initial_sort = Some K_date" and d: "direction initial_sort = descending"
    by (simp_all add: initial_sort_def)
  have perm: "mset (sortStage example_platform initial_sort example_tasks) = mset example_tasks"
    by (rule by_date [THEN conjunct1])
  have "sorted_wrt (\<lambda>a b. if direction initial_sort = ascending then date a \<le> date b
                          else date b \<le> date a)
          (sortStage example_platform initial_sort example_tasks)"
    by (rule by_date [THEN conjunct2, THEN conjunct2, THEN conjunct2, THEN conjunct1,
          THEN mp, OF k])
  then have dates: "sorted_wrt (\<lambda>a b. date b \<le> date a)
          (sortStage example_platform initial_sort example_tasks)"
    by (simp only: d) simp
  let ?cmp = "compareFn example_platform K_description ascending"
  let ?cfg = "\<lparr>key = Some K_description, direction = ascending\<rparr>"
  have total: "\<forall>a b. \<not> ?cmp a b \<le> 0 \<longrightarrow> ?cmp b a \<le> 0"
    by (intro allI impI) (rule example_compareFn_total)
  have trans: "\<forall>a b c. ?cmp a b \<le> 0 \<and> ?cmp b c \<le> 0 \<longrightarrow> ?cmp a c \<le> 0"
    by (intro allI impI, elim conjE) (rule example_compareFn_trans)
  have kd: "key ?cfg = Some K_description" and dd: "direction ?cfg = ascending"
    by simp_all
  have consistent: "key ?cfg = Some K_description
      \<and> (\<forall>a b. \<not> compareFn example_platform K_description (direction ?cfg) a b \<le> 0
              \<longrightarrow> compareFn example_platform K_description (direction ?cfg) b a \<le> 0)
      \<and> (\<forall>a b c. compareFn example_platform K_description (direction ?cfg) a b \<le> 0
                  \<and> compareFn example_platform K_description (direction ?cfg) b c \<le> 0
              \<longrightarrow> compareFn example_platform K_description (direction ?cfg) a c \<le> 0)"
    unfolding dd by (intro conjI kd total trans)
  have "sorted_wrt (\<lambda>a b. compareFn example_platform K_description (direction ?cfg) a b \<le> 0)
          (sortStage example_platform ?cfg example_tasks)"
    by (rule by_description [THEN conjunct2, THEN conjunct2, THEN conjunct1, THEN spec,
          THEN mp, OF consistent, THEN conjunct1])
  then have descriptions: "sorted_wrt (\<lambda>a b. ?cmp a b \<le> 0)
        (sortStage example_platform ?cfg example_tasks)"
    by (simp only: dd)
  have pages: "totalPages [example_tasks ! 2, example_tasks ! 0] = 1"
    by (simp add: totalPages_div)
  have "displayedPage example_platform example_tasks ''Report'' initial_sort 1
       = take 30
           (drop (nat ((validCurrentPage 1 (totalPages (filteredTasks example_platform example_tasks
                  ''Report'' initial_sort)) - 1) * 30))
              (filteredTasks example_platform example_tasks ''Report'' initial_sort))"
    by (rule by_date [THEN conjunct2, THEN conjunct2, THEN conjunct2, THEN conjunct2,
          THEN conjunct2, THEN conjunct2, THEN conjunct1])
  then have page: "displayedPage example_platform example_tasks ''Report'' initial_sort 1
       = [example_tasks ! 2, example_tasks ! 0]"
    by (simp only: example_view_report pages) (simp add: validCurrentPage_def)
  have common:
    "filter (\<lambda>t. t \<in> set (filteredTasks example_platform example_tasks ''2024-01'' initial_sort))
        (filteredTasks example_platform example_tasks ''Report'' initial_sort)
     = filter (\<lambda>t. t \<in> set (filteredTasks example_platform example_tasks ''Report'' initial_sort))
        (filteredTasks example_platform example_tasks ''2024-01'' initial_sort)"
    by (rule by_date [THEN conjunct2, THEN conjunct2, THEN conjunct2, THEN conjunct2,
          THEN conjunct2, THEN conjunct2, THEN conjunct2, THEN conjunct2, THEN conjunct2])
  from k example_sorted perm dates descriptions example_view_report page common
  show ?thesis by (intro conjI)
qed

lemma example_view_no_match:
  "filteredTasks example_platform example_tasks ''zebra'' initial_sort = []"
  by code_simp

text \<open>
  C2, as stated, fails: a search term that matches none of the three example tasks
  leaves no task, and then \<^verbatim>\<open>totalPages\<close> is 0, not 1.
\<close>

theorem totalPages_minimum_counterexample:
  "filteredTasks example_platform example_tasks ''zebra'' initial_sort = []
   \<and> totalPages (filteredTasks example_platform example_tasks ''zebra'' initial_sort) = 0
   \<and> totalPages (filteredTasks example_platform example_tasks ''zebra'' initial_sort)
       \<noteq> max 1 \<lceil>real (length (filteredTasks example_platform example_tasks ''zebra'' initial_sort))
                  / 30\<rceil>"
  by (simp add: example_view_no_match totalPages_Nil)

text \<open>
  C2, amended. For every collection of tasks and every search term the page count
  \<^verbatim>\<open>totalPages\<close> equals the ceiling of the number of matching tasks over 30, with
  no minimum. When the search term matches no task, \<^verbatim>\<open>totalPages\<close> is 0, the page
  that is read is page 1 whatever the current page is (the clamp puts 1 in the place
  of 0), and the displayed page is empty; the derivation has no failing branch.
\<close>

theorem totalPages_is_ceiling:
  "totalPages (filteredTasks P ts term cfg)
     = \<lceil>real (length (filteredTasks P ts term cfg)) / 30\<rceil>
   \<and> (filteredTasks P ts term cfg = [] \<longrightarrow>
        totalPages (filteredTasks P ts term cfg) = 0
        \<and> validCurrentPage page (totalPages (filteredTasks P ts term cfg)) = 1
        \<and> displayedPage P ts term cfg page = [])"
  by (auto simp: totalPages_def TASKS_PER_PAGE_def validCurrentPage_def displayedPage_def
      paginatedTasks_def slice_Nil)

theorem totalPages_is_ceiling_witness:
  "filteredTasks example_platform example_tasks ''zebra'' initial_sort = []
   \<and> totalPages (filteredTasks example_platform example_tasks ''zebra'' initial_sort) = 0
   \<and> validCurrentPage 4 (totalPages (filteredTasks example_platform example_tasks ''zebra'' initial_sort)) = 1
   \<and> displayedPage example_platform example_tasks ''zebra'' initial_sort 4 = []"
  using totalPages_is_ceiling [of example_platform example_tasks "''zebra''" initial_sort 4]
  by (simp add: example_view_no_match totalPages_Nil)

text \<open>
  C7, as stated, fails when no task is left: the page that is read is 1 while
  \<^verbatim>\<open>totalPages\<close> is 0, so it is not in the range from 1 to \<^verbatim>\<open>totalPages\<close>.
\<close>

theorem currentPage_clamp_counterexample:
  "\<not> (1 \<le> validCurrentPage 5 (totalPages (filteredTasks example_platform [] [] initial_sort))
      \<and> validCurrentPage 5 (totalPages (filteredTasks example_platform [] [] initial_sort))
          \<le> totalPages (filteredTasks example_platform [] [] initial_sort))"
proof -
  have "filteredTasks example_platform [] [] initial_sort = []"
    by (simp add: filteredTasks_def filterStage_def sortStage_def initial_sort_def array_sort_def)
  then show ?thesis by (simp add: totalPages_Nil validCurrentPage_def)
qed

text \<open>
  C7, amended. Whenever the current page is read to produce the displayed page of
  tasks, its value is clamped into the range from 1 to the larger of 1 and
  \<^verbatim>\<open>totalPages\<close>: into [1, totalPages] when at least one task is left, and to 1 when
  none is. A value in that range is kept, a value below it becomes 1 and a value above
  it becomes the upper end. The page is cut at the clamped value, so for
  any current page, also one left out of range after a delete, the displayed page is a
  page of the result (not empty when a task is left, of at most 30 tasks); the render
  stores the clamped value, \<^verbatim>\<open>goToPage\<close> clamps the page it is given in the same
  way, and the derivation has no failing branch.
\<close>

theorem currentPage_is_clamped:
  "1 \<le> validCurrentPage page (totalPages ft)
   \<and> validCurrentPage page (totalPages ft) \<le> max 1 (totalPages ft)
   \<and> (1 \<le> page \<and> page \<le> max 1 (totalPages ft) \<longrightarrow>
        validCurrentPage page (totalPages ft) = page)
   \<and> paginatedTasks ft page
        = take 30 (drop (nat ((validCurrentPage page (totalPages ft) - 1) * 30)) ft)
   \<and> (ft \<noteq> [] \<longrightarrow> paginatedTasks ft page \<noteq> [])
   \<and> length (paginatedTasks ft page) \<le> 30
   \<and> currentPage (render_page P s) = validCurrentPage (currentPage s) (totalPages_of P s)
   \<and> currentPage (goToPage P page s) = validCurrentPage page (totalPages_of P s)
   \<and> validCurrentPage page (totalPages ft) = max 1 (min page (max 1 (totalPages ft)))"
proof (intro conjI impI)
  let ?v = "validCurrentPage page (totalPages ft)"
  have range: "1 \<le> ?v \<and> ?v \<le> max 1 (totalPages ft)"
    by (rule validCurrentPage_range [OF totalPages_nonneg])
  then show "1 \<le> ?v" and "?v \<le> max 1 (totalPages ft)" by blast+
  show "?v = page" if "1 \<le> page \<and> page \<le> max 1 (totalPages ft)"
    using that by (auto simp: validCurrentPage_def)
  show window: "paginatedTasks ft page = take 30 (drop (nat ((?v - 1) * 30)) ft)"
    by (rule paginatedTasks_window)
  show "paginatedTasks ft page \<noteq> []" if "ft \<noteq> []"
  proof -
    have "1 \<le> totalPages ft" using that by (rule totalPages_pos)
    then have "?v \<le> totalPages ft" using range by simp
    then have "nat ((?v - 1) * 30) < length ft"
      using that range by (intro page_start_inside) simp_all
    then have "drop (nat ((?v - 1) * 30)) ft \<noteq> []" by simp
    then show ?thesis by (simp add: window)
  qed
  show "length (paginatedTasks ft page) \<le> 30" by (simp add: window)
  show "currentPage (render_page P s) = validCurrentPage (currentPage s) (totalPages_of P s)"
    by (simp add: render_page_def)
  show "currentPage (goToPage P page s) = validCurrentPage page (totalPages_of P s)"
    by (simp add: goToPage_def)
  show "?v = max 1 (min page (max 1 (totalPages ft)))"
    using totalPages_nonneg [of ft] by (auto simp: validCurrentPage_def max_def min_def)
qed

theorem currentPage_is_clamped_witness:
  "validCurrentPage 7 (totalPages (replicate 31 (example_tasks ! 0))) = 2
   \<and> paginatedTasks (replicate 31 (example_tasks ! 0)) 7 = [example_tasks ! 0]
   \<and> validCurrentPage 2 (totalPages (replicate 31 (example_tasks ! 0))) = 2
   \<and> validCurrentPage 0 (totalPages (replicate 31 (example_tasks ! 0))) = 1"
proof -
  let ?ft = "replicate 31 (example_tasks ! 0)"
  have pages: "totalPages ?ft = 2" by (simp add: totalPages_div)
  have seven: "validCurrentPage 7 (totalPages ?ft) = 2"
    and zero: "validCurrentPage 0 (totalPages ?ft) = 1"
    by (simp_all add: pages validCurrentPage_def)
  have "(1 \<le> (2::int) \<and> (2::int) \<le> max 1 (totalPages ?ft) \<longrightarrow> validCurrentPage 2 (totalPages ?ft) = 2)
        \<and> paginatedTasks ?ft 7 = take 30 (drop (nat ((validCurrentPage 7 (totalPages ?ft) - 1) * 30)) ?ft)"
    using currentPage_is_clamped [of 7 ?ft example_platform initial_App]
      currentPage_is_clamped [of 2 ?ft example_platform initial_App] by blast
  then show ?thesis using seven zero pages by simp
qed

lemma new_array_keeps:
  "new_array h xs = (r, h') \<Longrightarrow> r = length h \<and> h' = h @ [xs]"
  by (auto simp: new_array_def)

lemma filteredTasks_mem_result:
  assumes "tasks_ref < length h"
    and "filteredTasks_mem P h tasks_ref term cfg = (r, h')"
  shows "take (length h) h' = h \<and> length h \<le> r \<and> r < length h'
         \<and> h' ! r = filteredTasks P (h ! tasks_ref) term cfg"
  using assms
  by (auto simp: filteredTasks_mem_def new_array_def sort_in_place_def filteredTasks_def
      filterStage_def sortStage_def Let_def nth_append split: option.splits if_splits)

text \<open>
  C3. Deriving the displayed page leaves the task collection as it was, in its
  elements and in their stored order: for every store of arrays, every view state and
  every array of tasks in the store, the derivation changes no array that was there
  before (in particular not the array of tasks); what it sorts in place is a copy, and
  the page it returns is a new array holding the displayed page.
\<close>

theorem derivation_leaves_tasks_unchanged:
  assumes "tasks_ref < length h"
    and "displayedPage_mem P h tasks_ref term cfg page = (r, h')"
  shows "h' ! tasks_ref = h ! tasks_ref
         \<and> take (length h) h' = h
         \<and> length h \<le> r
         \<and> h' ! r = displayedPage P (h ! tasks_ref) term cfg page"
proof -
  obtain f h1 where f: "filteredTasks_mem P h tasks_ref term cfg = (f, h1)"
    by (cases "filteredTasks_mem P h tasks_ref term cfg")
  from assms(1) f have h1: "take (length h) h1 = h" "length h \<le> f" "f < length h1"
    "h1 ! f = filteredTasks P (h ! tasks_ref) term cfg"
    using filteredTasks_mem_result by blast+
  from assms(2) f have r: "r = length h1" and h': "h' = h1 @ [paginatedTasks (h1 ! f) page]"
    by (simp_all add: displayedPage_mem_def paginatedTasks_mem_def new_array_def)
  have len: "length h \<le> length h1" using h1(2,3) by simp
  have "take (length h) h' = h" using h1(1) len by (simp add: h')
  moreover from this have "h' ! tasks_ref = h ! tasks_ref"
    using assms(1) by (metis nth_take)
  moreover have "length h \<le> r" using len r by simp
  moreover have "h' ! r = displayedPage P (h ! tasks_ref) term cfg page"
    by (simp add: h' r h1(4) displayedPage_def)
  ultimately show ?thesis by blast
qed

theorem derivation_leaves_tasks_unchanged_witness:
  "(0::nat) < length [example_tasks]
   \<and> snd (displayedPage_mem example_platform [example_tasks] 0 ''Report'' initial_sort 1) ! 0
       = example_tasks
   \<and> take 1 (snd (displayedPage_mem example_platform [example_tasks] 0 ''Report'' initial_sort 1))
       = [example_tasks]
   \<and> snd (displayedPage_mem example_platform [example_tasks] 0 ''Report'' initial_sort 1)
        ! fst (displayedPage_mem example_platform [example_tasks] 0 ''Report'' initial_sort 1)
       = displayedPage example_platform example_tasks ''Report'' initial_sort 1"
proof -
  have len: "(0::nat) < length [example_tasks]" by simp
  show ?thesis
    using len derivation_leaves_tasks_unchanged [OF len surjective_pairing,
        of example_platform "''Report''" initial_sort 1]
    by simp
qed

text \<open>
  The earlier revision does not have this property: with no search term it sorts the
  array of tasks itself, so the stored order of the example tasks is lost.
\<close>

lemma earlier_revision_sorts_tasks_in_place:
  "tasks_ref < length h \<Longrightarrow> key cfg = Some k \<Longrightarrow>
   filteredTasks_page_mem P h tasks_ref [] cfg
     = (tasks_ref, h[tasks_ref := array_sort (compareFn P k (direction cfg)) (h ! tasks_ref)])"
  by (simp add: filteredTasks_page_mem_def sort_in_place_def)

lemma earlier_revision_example:
  "snd (filteredTasks_page_mem example_platform [example_tasks] 0 [] initial_sort) ! 0
     = [example_tasks ! 1, example_tasks ! 2, example_tasks ! 0]"
  by code_simp

text \<open>
  C6. For every task of the collection and every non-empty search term, the task
  passes the filter stage if and only if the lower-cased search term occurs as a
  contiguous piece of at least one of: the lower-cased description, the date rendered
  with the pattern yyyy-MM-dd, the lower-cased date rendered with the long pattern PPP,
  or the lower-cased status text.
\<close>

theorem search_matches_any_of_four_texts:
  assumes "term \<noteq> []"
  shows "filterStage P term xs = filter (matchesSearch P (toLowerCase P term)) xs
    \<and> (t \<in> set (filteredTasks P ts term cfg) \<longleftrightarrow>
         t \<in> set ts \<and>
         ((\<exists>before after. toLowerCase P (description t) = before @ toLowerCase P term @ after)
          \<or> (\<exists>before after. format P (date t) ''yyyy-MM-dd'' = before @ toLowerCase P term @ after)
          \<or> (\<exists>before after.
                toLowerCase P (format P (date t) ''PPP'') = before @ toLowerCase P term @ after)
          \<or> (\<exists>before after.
                toLowerCase P (status_text (status t)) = before @ toLowerCase P term @ after)))"
  using assms
  by (simp add: filterStage_def filteredTasks_def set_sortStage matchesSearch_def
      str_includes_def sublist_def)

theorem search_matches_any_of_four_texts_witness:
  "''Report'' \<noteq> []
   \<and> example_tasks ! 0 \<in> set (filteredTasks example_platform example_tasks ''Report'' initial_sort)
   \<and> example_tasks ! 1 \<notin> set (filteredTasks example_platform example_tasks ''Report'' initial_sort)
   \<and> (example_tasks ! 0 \<in> set (filteredTasks example_platform example_tasks ''Report'' initial_sort) \<longleftrightarrow>
        example_tasks ! 0 \<in> set example_tasks \<and>
        ((\<exists>before after. toLowerCase example_platform (description (example_tasks ! 0))
              = before @ toLowerCase example_platform ''Report'' @ after)
         \<or> (\<exists>before after. format example_platform (date (example_tasks ! 0)) ''yyyy-MM-dd''
              = before @ toLowerCase example_platform ''Report'' @ after)
         \<or> (\<exists>before after. toLowerCase example_platform (format example_platform (date (example_tasks ! 0)) ''PPP'')
              = before @ toLowerCase example_platform ''Report'' @ after)
         \<or> (\<exists>before after. toLowerCase example_platform (status_text (status (example_tasks ! 0)))
              = before @ toLowerCase example_platform ''Report'' @ after)))"
proof -
  have ne: "''Report'' \<noteq> []" by simp
  have "example_tasks ! 0 \<in> set [example_tasks ! 2, example_tasks ! 0]" by simp
  moreover have "example_tasks ! 1 \<notin> set [example_tasks ! 2, example_tasks ! 0]"
    by (simp add: example_tasks_def)
  ultimately show ?thesis
    using ne search_matches_any_of_four_texts [OF ne, of example_platform _ "example_tasks ! 0"
        example_tasks initial_sort]
    by (simp only: example_view_report) blast
qed

section \<open>The claims about the handlers and the effects\<close>

lemma validCurrentPage_one: "0 \<le> n \<Longrightarrow> validCurrentPage 1 n = 1"
  by (simp add: validCurrentPage_def)

lemma render_page_one: "currentPage s = 1 \<Longrightarrow> currentPage (render_page P s) = 1"
  by (simp add: render_page_def totalPages_of_def validCurrentPage_one totalPages_nonneg)

text \<open>
  C8. Every action that changes the search term, the sort key or the sort direction
  sets the current page to 1, and the render that follows leaves it at 1. The handlers
  that set the search term or the sort (\<^verbatim>\<open>handleSearchChange\<close>, \<^verbatim>\<open>clearSearch\<close>,
  \<^verbatim>\<open>requestSort\<close>) set the page to 1 in every state.
\<close>

theorem search_or_sort_change_resets_page:
  "(searchTerm (dispatch P a s) \<noteq> searchTerm s \<or> sortConfig (dispatch P a s) \<noteq> sortConfig s
      \<longrightarrow> currentPage (dispatch P a s) = 1
          \<and> currentPage (render_page P (dispatch P a s)) = 1)
   \<and> currentPage (handleSearchChange v s) = 1
   \<and> currentPage (clearSearch s) = 1
   \<and> currentPage (requestSort k s) = 1
   \<and> sortConfig (requestSort k s) \<noteq> sortConfig s"
proof (intro conjI impI)
  assume changed:
    "searchTerm (dispatch P a s) \<noteq> searchTerm s \<or> sortConfig (dispatch P a s) \<noteq> sortConfig s"
  then show one: "currentPage (dispatch P a s) = 1"
    by (cases a)
      (auto simp: handleAddTask_def handleUpdateTask_def handleDeleteTask_def startEditing_def
        cancelEditing_def requestSort_def handleSearchChange_def clearSearch_def goToPage_def
        Let_def split: option.splits)
  then show "currentPage (render_page P (dispatch P a s)) = 1"
    by (rule render_page_one)
next
  show "currentPage (handleSearchChange v s) = 1" by (simp add: handleSearchChange_def)
  show "currentPage (clearSearch s) = 1" by (simp add: clearSearch_def)
  show "currentPage (requestSort k s) = 1" by (simp add: requestSort_def Let_def)
  show "sortConfig (requestSort k s) \<noteq> sortConfig s"
  proof
    assume eq: "sortConfig (requestSort k s) = sortConfig s"
    then have "key (sortConfig s) = Some k"
      by (metis (no_types, lifting) App.select_convs(5) App.surjective App.update_convs(4,5)
          SortConfig.select_convs(1) requestSort_def)
    with eq show False
      by (cases "direction (sortConfig s)")
        (auto simp: requestSort_def Let_def dest: arg_cong [where f = direction])
  qed
qed

theorem search_or_sort_change_resets_page_witness:
  "sortConfig (dispatch example_platform (RequestSort K_description) (initial_App\<lparr>currentPage := 2\<rparr>))
     \<noteq> sortConfig (initial_App\<lparr>currentPage := 2\<rparr>)
   \<and> currentPage (initial_App\<lparr>currentPage := 2\<rparr>) = 2
   \<and> currentPage (dispatch example_platform (RequestSort K_description)
        (initial_App\<lparr>currentPage := 2\<rparr>)) = 1
   \<and> currentPage (render_page example_platform
        (dispatch example_platform (RequestSort K_description) (initial_App\<lparr>currentPage := 2\<rparr>))) = 1"
proof -
  have changed:
    "sortConfig (dispatch example_platform (RequestSort K_description) (initial_App\<lparr>currentPage := 2\<rparr>))
       \<noteq> sortConfig (initial_App\<lparr>currentPage := 2\<rparr>)"
    by (simp add: requestSort_def initial_App_def)
  then show ?thesis
    using search_or_sort_change_resets_page [of example_platform "RequestSort K_description"
        "initial_App\<lparr>currentPage := 2\<rparr>"]
    by simp
qed

text \<open>
  C9. When the write to the store fails in the save that follows an add, the task that
  was added stays in the collection: the save changes nothing but the toasts, to which
  it adds the report of the failure after the report of the successful add; the stored
  value is the one from before; and a later save that succeeds persists the collection
  with the new task.
\<close>

theorem add_survives_failed_save:
  assumes "isClient s"
  shows "tasks (saveEffect P False (handleAddTask values random_text s))
           = tasks (handleAddTask values random_text s)
    \<and> tasks (handleAddTask values random_text s)
        = \<lparr>task_id = generateId random_text, date = v_date values,
            description = v_description values, link = link_or_undefined (v_link values),
            status = v_status values\<rparr> # tasks s
    \<and> toasts (saveEffect P False (handleAddTask values random_text s))
        = toasts s @ [success_toast ''Task added successfully.'',
                      \<lparr>title = ''Error Saving Tasks'',
                       toast_description = ''Could not save tasks locally.'',
                       variant = Some ''destructive''\<rparr>]
    \<and> saveEffect P False (handleAddTask values random_text s)
        = (handleAddTask values random_text s)
            \<lparr>toasts := toasts (handleAddTask values random_text s) @
               [\<lparr>title = ''Error Saving Tasks'',
                 toast_description = ''Could not save tasks locally.'',
                 variant = Some ''destructive''\<rparr>]\<rparr>
    \<and> localStorage_tasks (saveEffect P False (handleAddTask values random_text s))
        = localStorage_tasks s
    \<and> localStorage_tasks (saveEffect P True (saveEffect P False (handleAddTask values random_text s)))
        = Some (Text (JSON_stringify P (tasks (handleAddTask values random_text s))))"
  using assms by (simp add: saveEffect_def handleAddTask_def Let_def)

theorem add_survives_failed_save_witness:
  "isClient (initial_App\<lparr>isClient := True\<rparr>)
   \<and> map task_id (tasks (saveEffect example_platform False
         (handleAddTask example_values ''0.4fzyo82mvyr'' (initial_App\<lparr>isClient := True\<rparr>))))
       = [''_4fzyo82mv'']
   \<and> map title (toasts (saveEffect example_platform False
         (handleAddTask example_values ''0.4fzyo82mvyr'' (initial_App\<lparr>isClient := True\<rparr>))))
       = [''Success'', ''Error Saving Tasks'']
   \<and> localStorage_tasks (saveEffect example_platform False
         (handleAddTask example_values ''0.4fzyo82mvyr'' (initial_App\<lparr>isClient := True\<rparr>)))
       = None"
proof -
  let ?s = "initial_App\<lparr>isClient := True\<rparr>"
  let ?added = "handleAddTask example_values ''0.4fzyo82mvyr'' ?s"
  have client: "isClient ?s" by simp
  note kept = add_survives_failed_save [OF client, of example_platform example_values
      "''0.4fzyo82mvyr''"]
  from kept have a: "tasks (saveEffect example_platform False ?added) = tasks ?added"
    by (rule conjunct1)
  from kept have b: "tasks ?added
      = \<lparr>task_id = generateId ''0.4fzyo82mvyr'', date = v_date example_values,
          description = v_description example_values,
          link = link_or_undefined (v_link example_values),
          status = v_status example_values\<rparr> # tasks ?s"
    by blast
  from kept have c: "toasts (saveEffect example_platform False ?added)
      = toasts ?s @ [success_toast ''Task added successfully.'',
                     \<lparr>title = ''Error Saving Tasks'',
                      toast_description = ''Could not save tasks locally.'',
                      variant = Some ''destructive''\<rparr>]"
    by blast
  from kept have d: "localStorage_tasks (saveEffect example_platform False ?added)
      = localStorage_tasks ?s"
    by blast
  show ?thesis
    by (simp only: a b c d)
      (simp add: initial_App_def generateId_def substr_def success_toast_def)
qed

text \<open>
  C5 does not hold of the code: an identifier is the text of a random draw cut to nine
  characters, and nothing compares it with the identifiers in use. Two adds whose draws
  are both one half (\<^verbatim>\<open>Math.random().toString(36)\<close> is \<^verbatim>\<open>"0.i"\<close>) leave two tasks
  with the identifier \<^verbatim>\<open>_i\<close>.
\<close>

theorem equal_draws_give_equal_ids:
  "map task_id (tasks (handleAddTask example_values ''0.i''
                        (handleAddTask example_values ''0.i'' initial_App)))
     = [''_i'', ''_i'']
   \<and> \<not> distinct (map task_id (tasks (handleAddTask example_values ''0.i''
                                       (handleAddTask example_values ''0.i'' initial_App))))"
  by (simp add: handleAddTask_def initial_App_def generateId_def substr_def)

lemma status_of_text_status_text: "status_of_text (status_text st) = Some st"
  by (cases st) (simp_all add: status_of_text_def)

lemma revive_task_json:
  assumes "Date_parse P (toISOString P (date t)) = Some (date t)"
  shows "revive P (task_json P t) = Done t"
proof (cases "link t")
  case None
  then show ?thesis using assms
    by (cases t)
      (simp add: revive_def task_json_def property_def new_Date_def status_of_text_status_text)
next
  case (Some l)
  then show ?thesis using assms
    by (cases t)
      (simp add: revive_def task_json_def property_def new_Date_def status_of_text_status_text)
qed

lemma revive_all_task_json:
  "\<forall>t\<in>set ts. Date_parse P (toISOString P (date t)) = Some (date t) \<Longrightarrow>
   revive_all P (map (task_json P) ts) = Done ts"
  by (induction ts) (simp_all add: revive_task_json)

text \<open>
  C4. On a platform whose \<^verbatim>\<open>new Date\<close> reads back the ISO string that \<^verbatim>\<open>toJSON\<close>
  writes for the dates of the collection (the contract of \<^verbatim>\<open>Date.parse\<close> and
  \<^verbatim>\<open>toISOString\<close>), saving and then loading in a new session returns the same
  collection, field for field. Each date is stored as its ISO string and read back as a
  date; a link that is absent is stored as no property and loads as absent, a link that
  is present is stored and loaded as it is.
\<close>

theorem load_after_save_is_identity:
  assumes "\<forall>t\<in>set (tasks s). Date_parse P (toISOString P (date t)) = Some (date t)"
    and "isClient s"
  shows "parsedTasks P (Text (JSON_stringify P (tasks s))) = Done (tasks s)
    \<and> loadEffect P random_text now True writable (remount (saveEffect P True s))
        = Some (initial_App\<lparr>isClient := True, tasks := tasks s,
                  localStorage_tasks := Some (Text (JSON_stringify P (tasks s)))\<rparr>)
    \<and> map_option tasks
          (loadEffect P random_text now True writable (remount (saveEffect P True s)))
        = Some (tasks s)
    \<and> (\<forall>t\<in>set (tasks s). \<forall>kvs. task_json P t = JObject kvs \<longrightarrow>
          property kvs ''date'' = Some (JString (toISOString P (date t)))
          \<and> property kvs ''link'' = map_option JString (link t))"
proof -
  have parsed: "parsedTasks P (Text (JSON_stringify P (tasks s))) = Done (tasks s)"
    using assms(1) by (simp add: parsedTasks_def JSON_stringify_def revive_all_task_json)
  have loaded: "loadEffect P random_text now True writable (remount (saveEffect P True s))
        = Some (initial_App\<lparr>isClient := True, tasks := tasks s,
                  localStorage_tasks := Some (Text (JSON_stringify P (tasks s)))\<rparr>)"
    using assms(2) parsed
    by (simp add: loadEffect_def remount_def saveEffect_def initial_App_def)
  have stored: "\<forall>t\<in>set (tasks s). \<forall>kvs. task_json P t = JObject kvs \<longrightarrow>
          property kvs ''date'' = Some (JString (toISOString P (date t)))
          \<and> property kvs ''link'' = map_option JString (link t)"
    by (auto simp: task_json_def property_def split: option.splits)
  from parsed loaded stored show ?thesis by simp
qed

lemma example_dates:
  "Date_parse example_platform (toISOString example_platform 1704067200000) = Some 1704067200000"
  "Date_parse example_platform (toISOString example_platform 1706745600000) = Some 1706745600000"
  "Date_parse example_platform (toISOString example_platform 1705276800000) = Some 1705276800000"
  by code_simp+

lemma example_dates_read_back:
  "\<forall>t\<in>set example_tasks.
     Date_parse example_platform (toISOString example_platform (date t)) = Some (date t)"
  by (simp add: example_tasks_def example_dates)

lemma example_first_task_json:
  "task_json example_platform (example_tasks ! 0)
     = JObject [(''id'', JString ''_a1''), (''date'', JString ''2024-01-01T00:00:00.000Z''),
                (''description'', JString ''Write the report''),
                (''status'', JString ''Pending'')]"
  by code_simp

theorem load_after_save_is_identity_witness:
  "map (\<lambda>t. Date_parse example_platform (toISOString example_platform (date t)))
       (tasks (initial_App\<lparr>isClient := True, tasks := example_tasks\<rparr>))
     = map (\<lambda>t. Some (date t)) (tasks (initial_App\<lparr>isClient := True, tasks := example_tasks\<rparr>))
   \<and> isClient (initial_App\<lparr>isClient := True, tasks := example_tasks\<rparr>)
   \<and> map_option tasks
        (loadEffect example_platform (\<lambda>i. ''0.i'') (\<lambda>i. 0) True True
           (remount (saveEffect example_platform True
              (initial_App\<lparr>isClient := True, tasks := example_tasks\<rparr>))))
       = Some example_tasks
   \<and> map_option (map link \<circ> tasks)
        (loadEffect example_platform (\<lambda>i. ''0.i'') (\<lambda>i. 0) True True
           (remount (saveEffect example_platform True
              (initial_App\<lparr>isClient := True, tasks := example_tasks\<rparr>))))
       = Some [None, Some ''https://example.com/budget'', None]"
proof -
  let ?s = "initial_App\<lparr>isClient := True, tasks := example_tasks\<rparr>"
  have dates: "\<forall>t\<in>set (tasks ?s).
      Date_parse example_platform (toISOString example_platform (date t)) = Some (date t)"
    using example_dates_read_back by simp
  have client: "isClient ?s" by simp
  have "loadEffect example_platform (\<lambda>i. ''0.i'') (\<lambda>i. 0) True True
           (remount (saveEffect example_platform True ?s))
        = Some (initial_App\<lparr>isClient := True, tasks := tasks ?s,
                  localStorage_tasks := Some (Text (JSON_stringify example_platform (tasks ?s)))\<rparr>)"
    using load_after_save_is_identity [OF dates client] by blast
  then show ?thesis using dates client by (simp add: example_tasks_def)
qed

lemma length_dummyTasks: "length (dummyTasks random_text now) = 35"
  by (simp add: dummyTasks_def)

lemma dummyTasks_nth:
  "i < 35 \<Longrightarrow> dummyTasks random_text now ! i = dummyTask random_text now i"
  by (simp add: dummyTasks_def)

lemma hd_dummyTasks: "hd (dummyTasks random_text now) = dummyTask random_text now 0"
  by (simp add: dummyTasks_def upt_conv_Cons)

text \<open>
  C10, as stated, fails: two first runs whose random draws differ seed different
  collections (the first identifiers are \<^verbatim>\<open>_a\<close> and \<^verbatim>\<open>_b\<close>).
\<close>

theorem first_runs_differ_counterexample:
  "loadEffect example_platform (\<lambda>i. ''0.a'') (\<lambda>i. 1704067200000) True True initial_App
     \<noteq> loadEffect example_platform (\<lambda>i. ''0.b'') (\<lambda>i. 1704067200000) True True initial_App"
proof
  let ?run = "\<lambda>r. loadEffect example_platform r (\<lambda>i. 1704067200000) True True initial_App"
  assume "?run (\<lambda>i. ''0.a'') = ?run (\<lambda>i. ''0.b'')"
  then have "map_option (\<lambda>s. task_id (hd (tasks s))) (?run (\<lambda>i. ''0.a''))
               = map_option (\<lambda>s. task_id (hd (tasks s))) (?run (\<lambda>i. ''0.b''))"
    by simp
  then show False
    by (simp add: loadEffect_def initial_App_def Let_def hd_dummyTasks dummyTask_def
        generateId_def substr_def)
qed

text \<open>
  C10, amended. On a first run, with nothing stored and a store that can be read and
  written, the load seeds 35 sample tasks and persists them at once. The identifier of
  a task is a random draw and its date counts back from the time of the run, one day
  for each task; the descriptions, the links and the statuses are fixed, the same in
  any two first runs. The collection holds exactly 35 tasks, and under the default sort
  (by date, descending) the view lists these 35 tasks in descending order of date.
\<close>

theorem first_run_seeds_sample_tasks:
  "loadEffect P random_text now True True initial_App
     = Some (initial_App\<lparr>isClient := True, tasks := dummyTasks random_text now,
               localStorage_tasks := Some (Text (JSON_stringify P (dummyTasks random_text now)))\<rparr>)
   \<and> length (dummyTasks random_text now) = 35
   \<and> (\<forall>i<35. task_id (dummyTasks random_text now ! i) = generateId (random_text i)
              \<and> date (dummyTasks random_text now ! i) = now i - int i * 86400000)
   \<and> map description (dummyTasks random_text now) = map description (dummyTasks random_text' now')
   \<and> map link (dummyTasks random_text now) = map link (dummyTasks random_text' now')
   \<and> map status (dummyTasks random_text now) = map status (dummyTasks random_text' now')
   \<and> sorted_wrt (\<lambda>a b. date b \<le> date a)
        (filteredTasks P (dummyTasks random_text now) (searchTerm initial_App)
           (sortConfig initial_App))
   \<and> mset (filteredTasks P (dummyTasks random_text now) (searchTerm initial_App)
              (sortConfig initial_App))
       = mset (dummyTasks random_text now)"
proof (intro conjI)
  show "loadEffect P random_text now True True initial_App
     = Some (initial_App\<lparr>isClient := True, tasks := dummyTasks random_text now,
               localStorage_tasks := Some (Text (JSON_stringify P (dummyTasks random_text now)))\<rparr>)"
    by (simp add: loadEffect_def initial_App_def Let_def)
  show "length (dummyTasks random_text now) = 35" by (rule length_dummyTasks)
  show "\<forall>i<35. task_id (dummyTasks random_text now ! i) = generateId (random_text i)
              \<and> date (dummyTasks random_text now ! i) = now i - int i * 86400000"
    by (simp add: dummyTasks_nth dummyTask_def)
  show "map description (dummyTasks random_text now) = map description (dummyTasks random_text' now')"
    by (simp add: dummyTasks_def dummyTask_def)
  show "map link (dummyTasks random_text now) = map link (dummyTasks random_text' now')"
    by (simp add: dummyTasks_def dummyTask_def)
  show "map status (dummyTasks random_text now) = map status (dummyTasks random_text' now')"
    by (simp add: dummyTasks_def dummyTask_def)
  show "sorted_wrt (\<lambda>a b. date b \<le> date a)
        (filteredTasks P (dummyTasks random_text now) (searchTerm initial_App)
           (sortConfig initial_App))"
    using sortStage_default_descending [of P "dummyTasks random_text now"]
    by (simp add: filteredTasks_def filterStage_def initial_App_def)
  show "mset (filteredTasks P (dummyTasks random_text now) (searchTerm initial_App)
              (sortConfig initial_App))
       = mset (dummyTasks random_text now)"
    by (simp add: filteredTasks_def filterStage_def initial_App_def mset_sortStage)
qed

theorem first_run_seeds_sample_tasks_witness:
  "map_option (length \<circ> tasks)
     (loadEffect example_platform (\<lambda>i. ''0.a'') (\<lambda>i. 1704067200000) True True initial_App)
     = Some 35
   \<and> (34::nat) < 35
   \<and> task_id (dummyTasks (\<lambda>i. ''0.a'') (\<lambda>i. 1704067200000) ! 34) = ''_a''
   \<and> date (dummyTasks (\<lambda>i. ''0.a'') (\<lambda>i. 1704067200000) ! 34) = 1701129600000"
proof -
  note seeds = first_run_seeds_sample_tasks [of example_platform "\<lambda>i. ''0.a''"
      "\<lambda>i. 1704067200000" "\<lambda>i. ''0.b''" "\<lambda>i. 0"]
  from seeds have run: "loadEffect example_platform (\<lambda>i. ''0.a'') (\<lambda>i. 1704067200000) True True initial_App
     = Some (initial_App\<lparr>isClient := True, tasks := dummyTasks (\<lambda>i. ''0.a'') (\<lambda>i. 1704067200000),
               localStorage_tasks := Some (Text (JSON_stringify example_platform
                 (dummyTasks (\<lambda>i. ''0.a'') (\<lambda>i. 1704067200000))))\<rparr>)"
    by (rule conjunct1)
  from seeds have len: "length (dummyTasks (\<lambda>i. ''0.a'') (\<lambda>i. 1704067200000)) = 35"
    by blast
  from seeds have each: "\<forall>i<35.
      task_id (dummyTasks (\<lambda>i. ''0.a'') (\<lambda>i. 1704067200000) ! i) = generateId ''0.a''
      \<and> date (dummyTasks (\<lambda>i. ''0.a'') (\<lambda>i. 1704067200000) ! i) = 1704067200000 - int i * 86400000"
    by blast
  have last: "(34::nat) < 35" by simp
  from each last have "task_id (dummyTasks (\<lambda>i. ''0.a'') (\<lambda>i. 1704067200000) ! 34) = generateId ''0.a''
      \<and> date (dummyTasks (\<lambda>i. ''0.a'') (\<lambda>i. 1704067200000) ! 34) = 1704067200000 - int 34 * 86400000"
    by blast
  then show ?thesis using run len by (simp add: generateId_def substr_def)
qed

section \<open>Further facts\<close>

text \<open>
  When the clock advances by less than a day between two consecutive readings of the
  seeding, the sample tasks are stored in strictly descending order of date, and the
  default sort leaves them in the order in which they are stored.
\<close>

lemma dummyTasks_strictly_descending:
  assumes "\<forall>i<34. now (Suc i) - now i < 86400000"
  shows "sorted_wrt (\<lambda>a b. date b < date a) (dummyTasks random_text now)"
proof -
  let ?g = "\<lambda>i. now i - int i * 86400000"
  have step: "?g (Suc i) < ?g i" if "i < 34" for i
    using assms that by (simp add: algebra_simps)
  have down: "?g j < ?g i" if "i < j" and "j < 35" for i j
    using that
  proof (induction j)
    case 0
    then show ?case by simp
  next
    case (Suc j)
    have "?g (Suc j) < ?g j" using Suc.prems(2) by (intro step) simp
    moreover have "?g j \<le> ?g i"
    proof (cases "i = j")
      case True
      then show ?thesis by simp
    next
      case False
      then have "i < j" using Suc.prems(1) by simp
      then have "?g j < ?g i" using Suc.prems(2) by (intro Suc.IH) simp_all
      then show ?thesis by simp
    qed
    ultimately show ?case by linarith
  qed
  have "date (dummyTasks random_text now ! j) < date (dummyTasks random_text now ! i)"
    if "i < j" and "j < 35" for i j
    using down [OF that] that by (simp add: dummyTasks_nth dummyTask_def)
  then show ?thesis
    by (simp add: sorted_wrt_iff_nth_less length_dummyTasks)
qed

lemma default_view_of_dummyTasks:
  assumes "\<forall>i<34. now (Suc i) - now i < 86400000"
  shows "filteredTasks P (dummyTasks random_text now) (searchTerm initial_App)
           (sortConfig initial_App)
         = dummyTasks random_text now"
proof -
  have "sorted_wrt (\<lambda>a b. date b < date a) (dummyTasks random_text now)"
    using assms by (rule dummyTasks_strictly_descending)
  then have "sorted_wrt (\<lambda>a b. compareFn P K_date descending a b \<le> 0)
               (dummyTasks random_text now)"
    by (rule sorted_wrt_mono_rel [rotated]) (simp add: compareFn_date_descending)
  then have "array_sort (compareFn P K_date descending) (dummyTasks random_text now)
               = dummyTasks random_text now"
    by (rule array_sort_sorted_id)
  then show ?thesis
    by (simp add: filteredTasks_def filterStage_def sortStage_def initial_App_def)
qed

text \<open>
  What does hold of the identifiers: an add keeps them distinct when the new
  identifier is not in use.
\<close>

lemma handleAddTask_keeps_distinct:
  "distinct (map task_id (tasks s)) \<Longrightarrow> generateId random_text \<notin> task_id ` set (tasks s) \<Longrightarrow>
   distinct (map task_id (tasks (handleAddTask values random_text s)))"
  by (simp add: handleAddTask_def)

text \<open>A task that is added or updated never carries the empty string as its link.\<close>

lemma link_or_undefined_not_empty: "link_or_undefined l \<noteq> Some []"
  by (simp add: link_or_undefined_def split: option.split)

lemma handleAddTask_link_not_empty:
  "link (hd (tasks (handleAddTask values random_text s))) \<noteq> Some []"
  by (simp add: handleAddTask_def link_or_undefined_not_empty)

text \<open>
  Two more places where the earlier revision differs: it does not search the status,
  and it reads the current page as it is, so a page beyond the last one is shown empty.
\<close>

lemma earlier_revision_ignores_status:
  "matchesSearch example_platform ''pending'' (example_tasks ! 0)
   \<and> \<not> matchesSearch_page example_platform ''pending'' (example_tasks ! 0)"
  by code_simp

lemma earlier_revision_page_not_clamped:
  "paginatedTasks_page (replicate 31 t) 7 = []
   \<and> paginatedTasks (replicate 31 t) 7 = [t]"
proof -
  have "totalPages (replicate 31 t) = 2" by (simp add: totalPages_div)
  then have "validCurrentPage 7 (totalPages (replicate 31 t)) = 2"
    by (simp add: validCurrentPage_def)
  then have "paginatedTasks (replicate 31 t) 7 = [t]"
    by (simp add: paginatedTasks_window)
  moreover have "paginatedTasks_page (replicate 31 t) 7 = []"
    by (simp add: paginatedTasks_page_def slice_def TASKS_PER_PAGE_def Let_def)
  ultimately show ?thesis by simp
qed

end
